theory Spec2Isabelle
  imports Main "HOL-Library.List_Lexorder" "HOL-Library.Product_Lexorder"
    "HOL-Library.Multiset"
begin

section \<open>TextHumanizer backend (backend/server.py)\<close>

subsection \<open>Python strings\<close>

text \<open>
  A Python \<open>str\<close> is a sequence of Unicode code points and \<open>len\<close> counts code points,
  so a \<open>str\<close> is a list of code points here. \<open>lit\<close> embeds the ASCII literals of the
  source.
\<close>

type_synonym pystr = "nat list"

definition lit :: "string \<Rightarrow> pystr" where
  "lit s = map of_char s"

text \<open>
  \<open>str.isspace\<close> on one code point, as CPython's \<open>Py_UNICODE_ISSPACE\<close> has it: the
  code points of bidirectional type WS, B or S, and of category Zs.
\<close>

definition py_isspace :: "nat \<Rightarrow> bool" where
  "py_isspace c \<longleftrightarrow>
     (9 \<le> c \<and> c \<le> 13) \<or> (28 \<le> c \<and> c \<le> 32) \<or> c = 133 \<or> c = 160 \<or> c = 5760 \<or>
     (8192 \<le> c \<and> c \<le> 8202) \<or> c = 8232 \<or> c = 8233 \<or> c = 8239 \<or> c = 8287 \<or> c = 12288"

text \<open>
  \<open>str.split()\<close> with no argument: runs of whitespace separate the tokens, leading and
  trailing whitespace yields no empty token. \<open>cur\<close> is the token being read, reversed.
\<close>

fun split_from :: "pystr \<Rightarrow> pystr \<Rightarrow> pystr list" where
  "split_from cur [] = (if cur = [] then [] else [rev cur])"
| "split_from cur (c # cs) =
     (if py_isspace c
      then (if cur = [] then split_from [] cs else rev cur # split_from [] cs)
      else split_from (c # cur) cs)"

definition py_split :: "pystr \<Rightarrow> pystr list" where
  "py_split s = split_from [] s"

text \<open>
  The specification's wording, "the number of whitespace-delimited tokens": a token
  starts at every position that holds a non-whitespace character and is either the first
  position or preceded by a whitespace character.
\<close>

definition token_start :: "pystr \<Rightarrow> nat \<Rightarrow> bool" where
  "token_start s i \<longleftrightarrow> \<not> py_isspace (s ! i) \<and> (i = 0 \<or> py_isspace (s ! (i - 1)))"

definition whitespace_delimited_tokens :: "pystr \<Rightarrow> nat" where
  "whitespace_delimited_tokens s = length (filter (token_start s) [0..<length s])"

subsection \<open>Exceptions and HTTP errors\<close>

text \<open>
  What a handler body can raise: FastAPI's \<open>HTTPException\<close> (status code and detail), a
  \<open>KeyError\<close> of a dictionary, a \<open>ValueError\<close>, or an exception of a client library
  (the LLM client, the database driver), of which only its text \<open>str(e)\<close> is observed.
\<close>

datatype exn =
    HTTPException nat pystr
  | KeyError pystr
  | ValueError pystr
  | LibraryError pystr

fun dec :: "nat \<Rightarrow> nat \<Rightarrow> pystr" where
  "dec 0 n = []"
| "dec (Suc w) n = dec w (n div 10) @ [48 + n mod 10]"

text \<open>
  \<open>str(e)\<close>. Starlette's \<open>HTTPException.__str__\<close> gives \<open>"{status_code}: {detail}"\<close>
  (status codes have three digits); a \<open>KeyError\<close> prints the \<open>repr\<close> of its key.
\<close>

fun str_exn :: "exn \<Rightarrow> pystr" where
  "str_exn (HTTPException status detail) = dec 3 status @ lit '': '' @ detail"
| "str_exn (KeyError k) = [39] @ k @ [39]"
| "str_exn (ValueError m) = m"
| "str_exn (LibraryError m) = m"

text \<open>
  What the caller of an endpoint receives instead of a result: the \<open>HTTPException\<close> a
  handler raised, or FastAPI's 422 when the request body fails the schema.
\<close>

datatype http_error =
    HTTPError nat pystr
  | RequestValidationError

fun status_code :: "http_error \<Rightarrow> nat" where
  "status_code (HTTPError status detail) = status"
| "status_code RequestValidationError = 422"

subsection \<open>Models (lines 29 to 51)\<close>

text \<open>
  The four pydantic models share field names; each record prefixes its fields:
  \<open>rq_\<close> for \<open>RephraseRequest\<close>, \<open>rs_\<close> for \<open>RephraseResponse\<close>, \<open>hi_\<close> for
  \<open>HistoryItem\<close>, \<open>hc_\<close> for \<open>HistoryCreate\<close>.
\<close>

record RephraseRequest =
  rq_text :: pystr
  rq_tone :: pystr

record RephraseResponse =
  rs_rephrased_text :: pystr
  rs_original_text :: pystr
  rs_tone :: pystr
  rs_word_count :: int
  rs_char_count :: int

text \<open>
  A JSON request body, and pydantic's validation of it against \<open>RephraseRequest\<close>:
  \<open>text: str\<close> is required and must be a JSON string, \<open>tone: str = "conversational"\<close>
  is optional and must be a JSON string when given; other members are ignored. The
  model declares no length constraint on either field. Of two members with the same
  name the JSON parser keeps the last, hence the lookup in the reversed member list.
\<close>

datatype json = JNull | JBool bool | JNumber int | JString pystr | JArray "json list"
  | JObject "(string \<times> json) list"

definition validate_str :: "json \<Rightarrow> pystr option" where
  "validate_str j = (case j of JString s \<Rightarrow> Some s | _ \<Rightarrow> None)"

definition validate_RephraseRequest :: "json \<Rightarrow> RephraseRequest option" where
  "validate_RephraseRequest body =
     (case body of
        JObject members \<Rightarrow>
          (case map_of (rev members) ''text'' of
             None \<Rightarrow> None
           | Some jt \<Rightarrow>
               (case validate_str jt of
                  None \<Rightarrow> None
                | Some t \<Rightarrow>
                    (case map_of (rev members) ''tone'' of
                       None \<Rightarrow> Some \<lparr>rq_text = t, rq_tone = lit ''conversational''\<rparr>
                     | Some jn \<Rightarrow>
                         (case validate_str jn of
                            None \<Rightarrow> None
                          | Some n \<Rightarrow> Some \<lparr>rq_text = t, rq_tone = n\<rparr>))))
      | _ \<Rightarrow> None)"

subsection \<open>Tone templates (lines 67 to 74)\<close>

definition formal_prompt :: pystr where
  "formal_prompt = lit ''You are an expert English writer. Rephrase the user's text into formal, professional, grammatically correct English that sounds natural and polished. Preserve the original meaning and context. Only return the rephrased text, nothing else.''"

definition conversational_prompt :: pystr where
  "conversational_prompt = lit ''You are an expert English writer. Rephrase the user's text into natural, conversational, grammatically correct English that sounds human and friendly. Preserve the original meaning and context. Only return the rephrased text, nothing else.''"

definition academic_prompt :: pystr where
  "academic_prompt = lit ''You are an expert academic writer. Rephrase the user's text into scholarly, precise, grammatically correct English suitable for academic papers. Preserve the original meaning and context. Only return the rephrased text, nothing else.''"

definition creative_prompt :: pystr where
  "creative_prompt = lit ''You are a creative writer. Rephrase the user's text into engaging, expressive, grammatically correct English with a creative flair. Preserve the original meaning and context. Only return the rephrased text, nothing else.''"

definition tone_prompts :: "(pystr \<times> pystr) list" where
  "tone_prompts =
     [(lit ''formal'', formal_prompt),
      (lit ''conversational'', conversational_prompt),
      (lit ''academic'', academic_prompt),
      (lit ''creative'', creative_prompt)]"

text \<open>\<open>d[k]\<close> raises \<open>KeyError\<close> on a missing key; \<open>d.get(k, default)\<close> does not.\<close>

definition dict_index :: "(pystr \<times> 'v) list \<Rightarrow> pystr \<Rightarrow> exn + 'v" where
  "dict_index d k = (case map_of d k of None \<Rightarrow> Inl (KeyError k) | Some v \<Rightarrow> Inr v)"

definition dict_get :: "(pystr \<times> 'v) list \<Rightarrow> pystr \<Rightarrow> 'v \<Rightarrow> 'v" where
  "dict_get d k dflt = (case map_of d k of None \<Rightarrow> dflt | Some v \<Rightarrow> v)"

text \<open>
  Line 74, \<open>tone_prompts.get(request.tone, tone_prompts["conversational"])\<close>: Python
  evaluates the default argument first, whatever the tone.
\<close>

definition system_message_for :: "pystr \<Rightarrow> exn + pystr" where
  "system_message_for tone =
     (case dict_index tone_prompts (lit ''conversational'') of
        Inl e \<Rightarrow> Inl e
      | Inr dflt \<Rightarrow> Inr (dict_get tone_prompts tone dflt))"

subsection \<open>The world a handler runs in\<close>

text \<open>
  Documents of the \<open>history\<close> collection and the dictionaries the driver returns map
  field names to values: strings, \<open>datetime\<close> objects, and the \<open>ObjectId\<close> of \<open>_id\<close>.
  All \<open>datetime\<close> values of the service are aware and in UTC
  (\<open>datetime.now(timezone.utc)\<close>), so the record carries no offset.
\<close>

record datetime =
  year :: nat
  month :: nat
  day :: nat
  hour :: nat
  minute :: nat
  second :: nat
  microsecond :: nat

datatype field_value = VStr pystr | VDatetime datetime | VObjectId nat

type_synonym doc = "string \<rightharpoonup> field_value"

record LlmChat =
  api_key :: pystr
  session_id :: pystr
  system_message :: pystr
  model_provider :: pystr
  model_name :: pystr

text \<open>
  The state outside a handler: the \<open>history\<close> collection in its natural (insertion)
  order, the calls made to the LLM provider, and the lines written by \<open>logger.error\<close>.
\<close>

record world =
  history :: "doc list"
  llm_calls :: "(LlmChat \<times> pystr) list"
  log_lines :: "pystr list"

subsection \<open>The rephrase handler (lines 58 to 102)\<close>

text \<open>
  What the handler reads from outside: the environment variable \<open>EMERGENT_LLM_KEY\<close>,
  the \<open>uuid4\<close> drawn for the session, and the provider's answer to a chat and a user
  message, either a completion or the text of the exception it raised.
\<close>

record rephrase_env =
  EMERGENT_LLM_KEY :: "pystr option"
  session_uuid :: pystr
  send_message :: "LlmChat \<Rightarrow> pystr \<Rightarrow> pystr + pystr"

text \<open>The body of the \<open>try\<close> block, lines 61 to 99.\<close>

definition rephrase_try :: "rephrase_env \<Rightarrow> RephraseRequest \<Rightarrow> world \<Rightarrow> (exn + RephraseResponse) \<times> world" where
  "rephrase_try env request w =
     (case EMERGENT_LLM_KEY env of
        None \<Rightarrow> (Inl (HTTPException 500 (lit ''API key not configured'')), w)
      | Some key \<Rightarrow>
          if key = [] then (Inl (HTTPException 500 (lit ''API key not configured'')), w)
          else
            (case system_message_for (rq_tone request) of
               Inl e \<Rightarrow> (Inl e, w)
             | Inr sm \<Rightarrow>
                 let chat = \<lparr>api_key = key, session_id = session_uuid env, system_message = sm,
                             model_provider = lit ''openai'', model_name = lit ''gpt-5''\<rparr>;
                     w' = w\<lparr>llm_calls := llm_calls w @ [(chat, rq_text request)]\<rparr>
                 in (case send_message env chat (rq_text request) of
                       Inl e \<Rightarrow> (Inl (LibraryError e), w')
                     | Inr response \<Rightarrow>
                         (Inr \<lparr>rs_rephrased_text = response,
                               rs_original_text = rq_text request,
                               rs_tone = rq_tone request,
                               rs_word_count = int (length (py_split response)),
                               rs_char_count = int (length response)\<rparr>, w'))))"

text \<open>
  Lines 100 to 102: \<open>except Exception\<close> catches every exception of the body, the
  \<open>HTTPException\<close> of the missing key included, logs it and raises a 500 whose detail
  is built from \<open>str(e)\<close>.
\<close>

definition rephrase_text :: "rephrase_env \<Rightarrow> RephraseRequest \<Rightarrow> world \<Rightarrow> (http_error + RephraseResponse) \<times> world" where
  "rephrase_text env request w =
     (case rephrase_try env request w of
        (Inl e, w') \<Rightarrow>
          (Inl (HTTPError 500 (lit ''Failed to rephrase text: '' @ str_exn e)),
           w'\<lparr>log_lines := log_lines w' @ [lit ''Error rephrasing text: '' @ str_exn e]\<rparr>)
      | (Inr r, w') \<Rightarrow> (Inr r, w'))"

text \<open>
  \<open>POST /api/rephrase\<close>: FastAPI validates the body against \<open>RephraseRequest\<close> and
  answers 422 without calling the handler when validation fails. The serialisation of
  the handler's result into the response body is not part of the model.
\<close>

definition post_rephrase :: "rephrase_env \<Rightarrow> json \<Rightarrow> world \<Rightarrow> (http_error + RephraseResponse) \<times> world" where
  "post_rephrase env body w =
     (case validate_RephraseRequest body of
        None \<Rightarrow> (Inl RequestValidationError, w)
      | Some request \<Rightarrow> rephrase_text env request w)"

text \<open>The chat the handler builds at lines 77 to 81 once the key is known.\<close>

definition chat_of :: "rephrase_env \<Rightarrow> pystr \<Rightarrow> RephraseRequest \<Rightarrow> LlmChat" where
  "chat_of env key request =
     \<lparr>api_key = key, session_id = session_uuid env,
      system_message = projr (system_message_for (rq_tone request)),
      model_provider = lit ''openai'', model_name = lit ''gpt-5''\<rparr>"

text \<open>
  Token starts counted along the string; \<open>b\<close> tells whether the position before is
  whitespace or the start of the string.
\<close>

fun count_starts :: "bool \<Rightarrow> pystr \<Rightarrow> nat" where
  "count_starts b [] = 0"
| "count_starts b (c # cs) =
     (if \<not> py_isspace c \<and> b then 1 else 0) + count_starts (py_isspace c) cs"

subsection \<open>Timestamps (lines 46, 109 and 122)\<close>

definition is_leap :: "nat \<Rightarrow> bool" where
  "is_leap y \<longleftrightarrow> y mod 4 = 0 \<and> (y mod 100 \<noteq> 0 \<or> y mod 400 = 0)"

definition days_in_month :: "nat \<Rightarrow> nat \<Rightarrow> nat" where
  "days_in_month y m =
     (if m = 2 then (if is_leap y then 29 else 28)
      else if m = 4 \<or> m = 6 \<or> m = 9 \<or> m = 11 then 30 else 31)"

text \<open>
  The values the \<open>datetime\<close> constructor accepts (\<open>MINYEAR = 1\<close>, \<open>MAXYEAR = 9999\<close>);
  every \<open>datetime\<close> object of a running program satisfies it.
\<close>

definition valid_datetime :: "datetime \<Rightarrow> bool" where
  "valid_datetime t \<longleftrightarrow>
     1 \<le> year t \<and> year t \<le> 9999 \<and> 1 \<le> month t \<and> month t \<le> 12 \<and>
     1 \<le> day t \<and> day t \<le> days_in_month (year t) (month t) \<and>
     hour t < 24 \<and> minute t < 60 \<and> second t < 60 \<and> microsecond t < 1000000"

text \<open>
  Two aware datetimes with the same \<open>tzinfo\<close> compare field by field, the year first.
\<close>

definition dt_tuple :: "datetime \<Rightarrow> nat \<times> nat \<times> nat \<times> nat \<times> nat \<times> nat \<times> nat" where
  "dt_tuple t = (year t, month t, day t, hour t, minute t, second t, microsecond t)"

text \<open>
  \<open>datetime.isoformat()\<close> of a UTC datetime: \<open>%04d-%02d-%02dT%02d:%02d:%02d\<close>, then
  \<open>.%06d\<close> only when the microsecond is not zero, then the offset \<open>+00:00\<close>.
  \<open>dec w n\<close> is \<open>%0wd\<close> for \<open>n < 10 ^ w\<close>, which \<open>valid_datetime\<close> gives for every
  field.
\<close>

definition isoformat :: "datetime \<Rightarrow> pystr" where
  "isoformat t =
     dec 4 (year t) @ lit ''-'' @ dec 2 (month t) @ lit ''-'' @ dec 2 (day t) @ lit ''T'' @
     dec 2 (hour t) @ lit '':'' @ dec 2 (minute t) @ lit '':'' @ dec 2 (second t) @
     (if microsecond t = 0 then [] else lit ''.'' @ dec 6 (microsecond t)) @ lit ''+00:00''"

definition digit_val :: "nat \<Rightarrow> nat option" where
  "digit_val c = (if 48 \<le> c \<and> c \<le> 57 then Some (c - 48) else None)"

fun parse_dec_from :: "nat \<Rightarrow> pystr \<Rightarrow> nat option" where
  "parse_dec_from acc [] = Some acc"
| "parse_dec_from acc (c # cs) =
     (case digit_val c of None \<Rightarrow> None | Some d \<Rightarrow> parse_dec_from (10 * acc + d) cs)"

definition parse_dec :: "pystr \<Rightarrow> nat option" where
  "parse_dec s = parse_dec_from 0 s"

definition substring :: "pystr \<Rightarrow> nat \<Rightarrow> nat \<Rightarrow> pystr" where
  "substring s i j = take (j - i) (drop i s)"

text \<open>
  \<open>datetime.fromisoformat\<close> on the two shapes \<open>isoformat\<close> writes for a UTC datetime,
  \<open>YYYY-MM-DD?HH:MM:SS+00:00\<close> and \<open>YYYY-MM-DD?HH:MM:SS.ffffff+00:00\<close> (CPython accepts
  any separator character at position 10), with the range checks of the constructor.
  \<open>None\<close> is the \<open>ValueError\<close>. CPython parses further ISO 8601 shapes and other
  offsets; no document written by \<open>save_history\<close> has one, and the model treats them
  as unparsable.
\<close>

definition fromisoformat :: "pystr \<Rightarrow> datetime option" where
  "fromisoformat s =
     (let n = length s in
      if n \<noteq> 25 \<and> n \<noteq> 32 then None
      else if substring s 4 5 \<noteq> lit ''-'' \<or> substring s 7 8 \<noteq> lit ''-'' \<or>
              substring s 13 14 \<noteq> lit '':'' \<or> substring s 16 17 \<noteq> lit '':'' then None
      else if substring s (n - 6) n \<noteq> lit ''+00:00'' then None
      else if n = 32 \<and> substring s 19 20 \<noteq> lit ''.'' then None
      else
        (case parse_dec (substring s 0 4) of None \<Rightarrow> None | Some y \<Rightarrow>
         case parse_dec (substring s 5 7) of None \<Rightarrow> None | Some mo \<Rightarrow>
         case parse_dec (substring s 8 10) of None \<Rightarrow> None | Some d \<Rightarrow>
         case parse_dec (substring s 11 13) of None \<Rightarrow> None | Some h \<Rightarrow>
         case parse_dec (substring s 14 16) of None \<Rightarrow> None | Some mi \<Rightarrow>
         case parse_dec (substring s 17 19) of None \<Rightarrow> None | Some sec \<Rightarrow>
         case (if n = 32 then parse_dec (substring s 20 26) else Some 0) of None \<Rightarrow> None
         | Some us \<Rightarrow>
             let t = \<lparr>year = y, month = mo, day = d, hour = h, minute = mi, second = sec,
                      microsecond = us\<rparr>
             in if valid_datetime t then Some t else None))"

subsection \<open>History models and the collection\<close>

record HistoryItem =
  hi_id :: pystr
  hi_original_text :: pystr
  hi_rephrased_text :: pystr
  hi_tone :: pystr
  hi_timestamp :: datetime

record HistoryCreate =
  hc_original_text :: pystr
  hc_rephrased_text :: pystr
  hc_tone :: pystr

text \<open>\<open>HistoryItem.model_dump()\<close>: the dictionary of the five fields.\<close>

definition model_dump :: "HistoryItem \<Rightarrow> doc" where
  "model_dump h =
     [''id'' \<mapsto> VStr (hi_id h),
      ''original_text'' \<mapsto> VStr (hi_original_text h),
      ''rephrased_text'' \<mapsto> VStr (hi_rephrased_text h),
      ''tone'' \<mapsto> VStr (hi_tone h),
      ''timestamp'' \<mapsto> VDatetime (hi_timestamp h)]"

text \<open>
  \<open>insert_one\<close>: the driver raises (\<open>Some\<close> the exception's text), or gives the
  document an \<open>_id\<close> when it has none and appends it to the collection.
\<close>

definition insert_one :: "pystr option \<Rightarrow> nat \<Rightarrow> doc \<Rightarrow> doc list \<Rightarrow> exn + doc list" where
  "insert_one fault oid d ds =
     (case fault of
        Some e \<Rightarrow> Inl (LibraryError e)
      | None \<Rightarrow> Inr (ds @ [if d ''_id'' = None then d(''_id'' \<mapsto> VObjectId oid) else d]))"

text \<open>
  The order MongoDB sorts values of one field by: the BSON types in their comparison
  order (a missing field as null, then strings, \<open>ObjectId\<close>, dates), and within a type
  by value, strings by their code points. The key is compared lexicographically.
\<close>

fun bson_key :: "field_value option \<Rightarrow> nat \<times> pystr \<times> nat \<times> (nat \<times> nat \<times> nat \<times> nat \<times> nat \<times> nat \<times> nat)" where
  "bson_key None = (0, [], 0, (0, 0, 0, 0, 0, 0, 0))"
| "bson_key (Some (VStr s)) = (1, s, 0, (0, 0, 0, 0, 0, 0, 0))"
| "bson_key (Some (VObjectId n)) = (2, [], n, (0, 0, 0, 0, 0, 0, 0))"
| "bson_key (Some (VDatetime t)) = (3, [], 0, dt_tuple t)"

text \<open>
  \<open>.sort(field, -1)\<close>: descending by the field. MongoDB leaves the order of
  documents with equal keys open; here they stay in their natural order, and no result
  below depends on that choice.
\<close>

fun insert_desc :: "string \<Rightarrow> doc \<Rightarrow> doc list \<Rightarrow> doc list" where
  "insert_desc field d [] = [d]"
| "insert_desc field d (x # xs) =
     (if bson_key (x field) \<le> bson_key (d field) then d # x # xs
      else x # insert_desc field d xs)"

definition sort_desc :: "string \<Rightarrow> doc list \<Rightarrow> doc list" where
  "sort_desc field ds = foldr (insert_desc field) ds []"

text \<open>
  \<open>find({}, {"_id": 0}).sort("timestamp", -1).to_list(50)\<close>: every document, sorted,
  cut at 50, without its \<open>_id\<close>; or the driver's exception.
\<close>

definition find_sorted :: "pystr option \<Rightarrow> doc list \<Rightarrow> exn + doc list" where
  "find_sorted fault ds =
     (case fault of
        Some e \<Rightarrow> Inl (LibraryError e)
      | None \<Rightarrow> Inr (map (\<lambda>d. d(''_id'' := None)) (take 50 (sort_desc ''timestamp'' ds))))"

text \<open>
  \<open>delete_one(filter)\<close>: removes the first matching document and reports how many it
  removed.
\<close>

fun delete_first :: "(doc \<Rightarrow> bool) \<Rightarrow> doc list \<Rightarrow> doc list \<times> nat" where
  "delete_first p [] = ([], 0)"
| "delete_first p (d # ds) =
     (if p d then (ds, 1) else (case delete_first p ds of (ds', n) \<Rightarrow> (d # ds', n)))"

definition delete_one :: "pystr option \<Rightarrow> (doc \<Rightarrow> bool) \<Rightarrow> doc list \<Rightarrow> exn + doc list \<times> nat" where
  "delete_one fault p ds =
     (case fault of Some e \<Rightarrow> Inl (LibraryError e) | None \<Rightarrow> Inr (delete_first p ds))"

subsection \<open>save_history (lines 104 to 114)\<close>

text \<open>
  What the handler draws from outside: the \<open>uuid4\<close> and the clock reading of the
  \<open>HistoryItem\<close> default factories, the \<open>ObjectId\<close> of the driver, and whether the
  insert fails.
\<close>

record save_env =
  uuid4 :: pystr
  now :: datetime
  object_id :: nat
  insert_fault :: "pystr option"

definition save_history_try :: "save_env \<Rightarrow> HistoryCreate \<Rightarrow> world \<Rightarrow> (exn + HistoryItem) \<times> world" where
  "save_history_try env input w =
     (let history_obj = \<lparr>hi_id = uuid4 env,
                         hi_original_text = hc_original_text input,
                         hi_rephrased_text = hc_rephrased_text input,
                         hi_tone = hc_tone input,
                         hi_timestamp = now env\<rparr>;
          doc0 = model_dump history_obj;
          doc1 = doc0(''timestamp'' \<mapsto> VStr (isoformat (hi_timestamp history_obj)))
      in case insert_one (insert_fault env) (object_id env) doc1 (history w) of
           Inl e \<Rightarrow> (Inl e, w)
         | Inr ds \<Rightarrow> (Inr history_obj, w\<lparr>history := ds\<rparr>))"

definition save_history :: "save_env \<Rightarrow> HistoryCreate \<Rightarrow> world \<Rightarrow> (http_error + HistoryItem) \<times> world" where
  "save_history env input w =
     (case save_history_try env input w of
        (Inl e, w') \<Rightarrow>
          (Inl (HTTPError 500 (lit ''Failed to save history'')),
           w'\<lparr>log_lines := log_lines w' @ [lit ''Error saving history: '' @ str_exn e]\<rparr>)
      | (Inr h, w') \<Rightarrow> (Inr h, w'))"

subsection \<open>get_history (lines 116 to 126)\<close>

text \<open>
  The loop of lines 120 to 122; \<open>item['timestamp']\<close> raises \<open>KeyError\<close> when the field
  is missing, \<open>fromisoformat\<close> raises \<open>ValueError\<close>, and either ends the loop.
  The handler's result is the list of dictionaries it returns; FastAPI's conversion of
  that list through \<open>response_model\<close> is not part of the model.
\<close>

fun parse_timestamps :: "doc list \<Rightarrow> exn + doc list" where
  "parse_timestamps [] = Inr []"
| "parse_timestamps (item # rest) =
     (case item ''timestamp'' of
        None \<Rightarrow> Inl (KeyError (lit ''timestamp''))
      | Some (VStr s) \<Rightarrow>
          (case fromisoformat s of
             None \<Rightarrow> Inl (ValueError (lit ''Invalid isoformat string: '' @ [39] @ s @ [39]))
           | Some t \<Rightarrow>
               (case parse_timestamps rest of
                  Inl e \<Rightarrow> Inl e
                | Inr rest' \<Rightarrow> Inr (item(''timestamp'' \<mapsto> VDatetime t) # rest')))
      | Some _ \<Rightarrow>
          (case parse_timestamps rest of
             Inl e \<Rightarrow> Inl e
           | Inr rest' \<Rightarrow> Inr (item # rest')))"

definition get_history_try :: "pystr option \<Rightarrow> world \<Rightarrow> exn + doc list" where
  "get_history_try fault w =
     (case find_sorted fault (history w) of
        Inl e \<Rightarrow> Inl e
      | Inr history_items \<Rightarrow> parse_timestamps history_items)"

definition get_history :: "pystr option \<Rightarrow> world \<Rightarrow> (http_error + doc list) \<times> world" where
  "get_history fault w =
     (case get_history_try fault w of
        Inl e \<Rightarrow>
          (Inl (HTTPError 500 (lit ''Failed to fetch history'')),
           w\<lparr>log_lines := log_lines w @ [lit ''Error fetching history: '' @ str_exn e]\<rparr>)
      | Inr items \<Rightarrow> (Inr items, w))"

subsection \<open>delete_history_item (lines 128 to 139)\<close>

definition delete_try :: "pystr option \<Rightarrow> pystr \<Rightarrow> world \<Rightarrow> (exn + (string \<times> pystr) list) \<times> world" where
  "delete_try fault history_id w =
     (case delete_one fault (\<lambda>d. d ''id'' = Some (VStr history_id)) (history w) of
        Inl e \<Rightarrow> (Inl e, w)
      | Inr (ds, deleted_count) \<Rightarrow>
          if deleted_count = 0
          then (Inl (HTTPException 404 (lit ''History item not found'')), w\<lparr>history := ds\<rparr>)
          else (Inr [(''message'', lit ''History item deleted'')], w\<lparr>history := ds\<rparr>))"

text \<open>
  \<open>except HTTPException: raise\<close> lets the 404 through; every other exception is logged
  and replaced by the 500.
\<close>

definition delete_history_item :: "pystr option \<Rightarrow> pystr \<Rightarrow> world \<Rightarrow> (http_error + (string \<times> pystr) list) \<times> world" where
  "delete_history_item fault history_id w =
     (case delete_try fault history_id w of
        (Inl (HTTPException status detail), w') \<Rightarrow> (Inl (HTTPError status detail), w')
      | (Inl e, w') \<Rightarrow>
          (Inl (HTTPError 500 (lit ''Failed to delete history'')),
           w'\<lparr>log_lines := log_lines w' @ [lit ''Error deleting history: '' @ str_exn e]\<rparr>)
      | (Inr m, w') \<Rightarrow> (Inr m, w'))"

subsection \<open>Documents written by the service\<close>

text \<open>
  A document as \<open>save_history\<close> stores it: the five fields and \<open>_id\<close>, the timestamp a
  string that is the \<open>isoformat\<close> of the datetime it parses to.
\<close>

definition stored_fields :: "string set" where
  "stored_fields = {''_id'', ''id'', ''original_text'', ''rephrased_text'', ''tone'', ''timestamp''}"

definition semantic_fields :: "string set" where
  "semantic_fields = {''id'', ''original_text'', ''rephrased_text'', ''tone'', ''timestamp''}"

definition stored_timestamp :: "doc \<Rightarrow> datetime option" where
  "stored_timestamp d =
     (case d ''timestamp'' of
        Some (VStr s) \<Rightarrow>
          (case fromisoformat s of
             Some t \<Rightarrow> if isoformat t = s then Some t else None
           | None \<Rightarrow> None)
      | _ \<Rightarrow> None)"

definition wf_doc :: "doc \<Rightarrow> bool" where
  "wf_doc d \<longleftrightarrow> dom d = stored_fields \<and> stored_timestamp d \<noteq> None"

definition wf_store :: "doc list \<Rightarrow> bool" where
  "wf_store ds \<longleftrightarrow> list_all wf_doc ds"

definition unique_ids :: "doc list \<Rightarrow> bool" where
  "unique_ids ds \<longleftrightarrow> distinct (map (\<lambda>d. d ''id'') ds)"

definition has_id :: "pystr \<Rightarrow> doc list \<Rightarrow> bool" where
  "has_id history_id ds \<longleftrightarrow> list_ex (\<lambda>d. d ''id'' = Some (VStr history_id)) ds"

text \<open>
  Closed forms of what the handlers compute, used to state their results: the item
  \<open>save_history\<close> builds, the document it inserts, and a listed document with its
  timestamp read back.
\<close>

definition new_item :: "save_env \<Rightarrow> HistoryCreate \<Rightarrow> HistoryItem" where
  "new_item env input =
     \<lparr>hi_id = uuid4 env,
      hi_original_text = hc_original_text input,
      hi_rephrased_text = hc_rephrased_text input,
      hi_tone = hc_tone input,
      hi_timestamp = now env\<rparr>"

definition stored_doc :: "save_env \<Rightarrow> HistoryCreate \<Rightarrow> doc" where
  "stored_doc env input =
     (model_dump (new_item env input))
       (''timestamp'' \<mapsto> VStr (isoformat (now env)), ''_id'' \<mapsto> VObjectId (object_id env))"

definition with_datetime :: "doc \<Rightarrow> doc" where
  "with_datetime d =
     (case stored_timestamp d of
        Some t \<Rightarrow> d(''timestamp'' \<mapsto> VDatetime t)
      | None \<Rightarrow> d)"

subsection \<open>States the service reaches\<close>

text \<open>
  From an empty collection, by the four handlers, with valid clock readings and with
  \<open>uuid4\<close> values not yet in the collection.
\<close>

inductive reachable :: "world \<Rightarrow> bool" where
  start: "history w = [] \<Longrightarrow> reachable w"
| saved: "reachable w \<Longrightarrow> valid_datetime (now env) \<Longrightarrow> \<not> has_id (uuid4 env) (history w) \<Longrightarrow>
          reachable (snd (save_history env input w))"
| listed: "reachable w \<Longrightarrow> reachable (snd (get_history fault w))"
| deleted: "reachable w \<Longrightarrow> reachable (snd (delete_history_item fault history_id w))"
| rephrased: "reachable w \<Longrightarrow> reachable (snd (rephrase_text renv request w))"


subsection \<open>Example inputs\<close>

text \<open>
  A provider that answers, one that raises, three clock readings of which the third is
  earlier than the first, the body of the history test of \<open>backend_test.py\<close>, and the
  collection after one save.
\<close>

definition empty_world :: world where
  "empty_world = \<lparr>history = [], llm_calls = [], log_lines = []\<rparr>"

definition answering_env :: rephrase_env where
  "answering_env =
     \<lparr>EMERGENT_LLM_KEY = Some (lit ''key''), session_uuid = lit ''session'',
      send_message = (\<lambda>chat text. Inr (lit ''Hi  all''))\<rparr>"

definition failing_env :: rephrase_env where
  "failing_env =
     \<lparr>EMERGENT_LLM_KEY = Some (lit ''key''), session_uuid = lit ''session'',
      send_message = (\<lambda>chat text. Inl (lit ''quota exceeded''))\<rparr>"

definition first_env :: save_env where
  "first_env =
     \<lparr>uuid4 = lit ''id-1'',
      now = \<lparr>year = 2024, month = 1, day = 1, hour = 0, minute = 0, second = 1, microsecond = 0\<rparr>,
      object_id = 1, insert_fault = None\<rparr>"

definition later_env :: save_env where
  "later_env =
     \<lparr>uuid4 = lit ''id-2'',
      now = \<lparr>year = 2024, month = 1, day = 1, hour = 0, minute = 0, second = 1,
             microsecond = 500000\<rparr>,
      object_id = 2, insert_fault = None\<rparr>"

definition earlier_env :: save_env where
  "earlier_env =
     \<lparr>uuid4 = lit ''id-3'',
      now = \<lparr>year = 2024, month = 1, day = 1, hour = 0, minute = 0, second = 0, microsecond = 0\<rparr>,
      object_id = 3, insert_fault = None\<rparr>"

definition example_input :: HistoryCreate where
  "example_input =
     \<lparr>hc_original_text = lit ''Test original text'',
      hc_rephrased_text = lit ''Test rephrased text'',
      hc_tone = lit ''conversational''\<rparr>"

definition one_record :: world where
  "one_record = empty_world\<lparr>history := [stored_doc first_env example_input]\<rparr>"

section \<open>Properties\<close>

subsection \<open>Tone templates\<close>

lemma lit_eq_iff: "lit a = lit b \<longleftrightarrow> a = b"
  by (simp add: lit_def inj_map_eq_map inj_of_char)

lemma system_message_for_eq:
  "system_message_for tone =
     Inr (if tone = lit ''formal'' then formal_prompt
          else if tone = lit ''academic'' then academic_prompt
          else if tone = lit ''creative'' then creative_prompt
          else conversational_prompt)"
  by (simp add: system_message_for_def dict_index_def dict_get_def tone_prompts_def lit_eq_iff)

lemma prompts_distinct:
  "distinct [formal_prompt, conversational_prompt, academic_prompt, creative_prompt]"
  by (simp add: formal_prompt_def conversational_prompt_def academic_prompt_def
      creative_prompt_def lit_eq_iff)

text \<open>
  C1: the resolved system instruction is always one of the four templates: each of the
  tones formal, conversational, academic and creative selects its own template, and any
  other tone string selects the conversational template; the resolution never raises.
\<close>

theorem tone_template_selection:
  "system_message_for (lit ''formal'') = Inr formal_prompt \<and>
   system_message_for (lit ''conversational'') = Inr conversational_prompt \<and>
   system_message_for (lit ''academic'') = Inr academic_prompt \<and>
   system_message_for (lit ''creative'') = Inr creative_prompt \<and>
   (tone \<notin> {lit ''formal'', lit ''conversational'', lit ''academic'', lit ''creative''} \<longrightarrow>
      system_message_for tone = Inr conversational_prompt) \<and>
   system_message_for tone \<in>
     Inr ` {formal_prompt, conversational_prompt, academic_prompt, creative_prompt}"
  by (simp add: system_message_for_eq lit_eq_iff)

theorem tone_template_selection_witness:
  "lit ''invalid_tone'' \<notin> {lit ''formal'', lit ''conversational'', lit ''academic'', lit ''creative''} \<and>
   system_message_for (lit ''invalid_tone'') = Inr conversational_prompt"
  using tone_template_selection [of "lit ''invalid_tone''"] by (simp add: lit_eq_iff)

subsection \<open>The rephrase handler\<close>

lemma rephrase_try_no_key:
  "EMERGENT_LLM_KEY env = None \<or> EMERGENT_LLM_KEY env = Some [] \<Longrightarrow>
   rephrase_try env request w = (Inl (HTTPException 500 (lit ''API key not configured'')), w)"
  by (auto simp: rephrase_try_def)

lemma rephrase_try_key:
  "EMERGENT_LLM_KEY env = Some key \<Longrightarrow> key \<noteq> [] \<Longrightarrow>
   rephrase_try env request w =
     (case send_message env (chat_of env key request) (rq_text request) of
        Inl e \<Rightarrow> Inl (LibraryError e)
      | Inr response \<Rightarrow>
          Inr \<lparr>rs_rephrased_text = response, rs_original_text = rq_text request,
               rs_tone = rq_tone request, rs_word_count = int (length (py_split response)),
               rs_char_count = int (length response)\<rparr>,
      w\<lparr>llm_calls := llm_calls w @ [(chat_of env key request, rq_text request)]\<rparr>)"
  by (simp add: rephrase_try_def chat_of_def Let_def system_message_for_eq split: sum.splits)

lemma rephrase_text_no_key:
  assumes "EMERGENT_LLM_KEY env = None \<or> EMERGENT_LLM_KEY env = Some []"
  shows "rephrase_text env request w =
     (Inl (HTTPError 500 (lit ''Failed to rephrase text: '' @
             str_exn (HTTPException 500 (lit ''API key not configured'')))),
      w\<lparr>log_lines := log_lines w @ [lit ''Error rephrasing text: '' @
             str_exn (HTTPException 500 (lit ''API key not configured''))]\<rparr>)"
  unfolding rephrase_text_def rephrase_try_no_key [OF assms] by (simp only: prod.case sum.case)

lemma rephrase_text_provider_error:
  assumes "EMERGENT_LLM_KEY env = Some key" and "key \<noteq> []"
    and "send_message env (chat_of env key request) (rq_text request) = Inl e"
  shows "rephrase_text env request w =
     (Inl (HTTPError 500 (lit ''Failed to rephrase text: '' @ e)),
      w\<lparr>llm_calls := llm_calls w @ [(chat_of env key request, rq_text request)],
        log_lines := log_lines w @ [lit ''Error rephrasing text: '' @ e]\<rparr>)"
  unfolding rephrase_text_def rephrase_try_key [OF assms(1,2)] assms(3)
  by simp

lemma rephrase_text_success:
  assumes "EMERGENT_LLM_KEY env = Some key" and "key \<noteq> []"
    and "send_message env (chat_of env key request) (rq_text request) = Inr response"
  shows "rephrase_text env request w =
     (Inr \<lparr>rs_rephrased_text = response, rs_original_text = rq_text request,
           rs_tone = rq_tone request, rs_word_count = int (length (py_split response)),
           rs_char_count = int (length response)\<rparr>,
      w\<lparr>llm_calls := llm_calls w @ [(chat_of env key request, rq_text request)]\<rparr>)"
  unfolding rephrase_text_def rephrase_try_key [OF assms(1,2)] assms(3)
  by simp

lemma rephrase_text_Inr:
  assumes "rephrase_text env request w = (Inr r, w')"
  shows "\<exists>key response. EMERGENT_LLM_KEY env = Some key \<and> key \<noteq> [] \<and>
     send_message env (chat_of env key request) (rq_text request) = Inr response \<and>
     r = \<lparr>rs_rephrased_text = response, rs_original_text = rq_text request,
          rs_tone = rq_tone request, rs_word_count = int (length (py_split response)),
          rs_char_count = int (length response)\<rparr> \<and>
     w' = w\<lparr>llm_calls := llm_calls w @ [(chat_of env key request, rq_text request)]\<rparr>"
proof (cases "EMERGENT_LLM_KEY env = None \<or> EMERGENT_LLM_KEY env = Some []")
  case True
  have "\<exists>e v. rephrase_text env request w = (Inl e, v)"
    unfolding rephrase_text_no_key [OF True] by blast
  with assms show ?thesis by auto
next
  case False
  then obtain key where key: "EMERGENT_LLM_KEY env = Some key" "key \<noteq> []"
    by (cases "EMERGENT_LLM_KEY env") auto
  show ?thesis
  proof (cases "send_message env (chat_of env key request) (rq_text request)")
    case (Inl e)
    have "\<exists>e v. rephrase_text env request w = (Inl e, v)"
      unfolding rephrase_text_provider_error [OF key Inl] by blast
    with assms show ?thesis by auto
  next
    case (Inr response)
    have "rephrase_text env request w =
      (Inr \<lparr>rs_rephrased_text = response, rs_original_text = rq_text request,
           rs_tone = rq_tone request, rs_word_count = int (length (py_split response)),
           rs_char_count = int (length response)\<rparr>,
       w\<lparr>llm_calls := llm_calls w @ [(chat_of env key request, rq_text request)]\<rparr>)"
      by (rule rephrase_text_success [OF key Inr])
    with assms have "r = \<lparr>rs_rephrased_text = response, rs_original_text = rq_text request,
          rs_tone = rq_tone request, rs_word_count = int (length (py_split response)),
          rs_char_count = int (length response)\<rparr>"
      and "w' = w\<lparr>llm_calls := llm_calls w @ [(chat_of env key request, rq_text request)]\<rparr>"
      by simp_all
    with key Inr show ?thesis by (intro exI conjI)
  qed
qed

subsection \<open>Counting words\<close>

lemma length_split_from:
  "length (split_from cur s) =
     (if cur = [] then count_starts True s else Suc (count_starts False s))"
  by (induction s arbitrary: cur) auto

lemma filter_starts_aux:
  "length (filter (\<lambda>i. \<not> py_isspace (s ! i) \<and> (if i = 0 then b else py_isspace (s ! (i - 1))))
             [0..<length s]) = count_starts b s"
proof (induction s arbitrary: b)
  case Nil
  then show ?case by simp
next
  case (Cons c cs)
  have upt: "[0..<length (c # cs)] = 0 # map Suc [0..<length cs]"
    by (simp add: upt_conv_Cons map_Suc_upt del: upt_Suc)
  have tl: "filter ((\<lambda>i. \<not> py_isspace ((c # cs) ! i) \<and>
                 (if i = 0 then b else py_isspace ((c # cs) ! (i - 1)))) \<circ> Suc) [0..<length cs]
        = filter (\<lambda>i. \<not> py_isspace (cs ! i) \<and>
                 (if i = 0 then py_isspace c else py_isspace (cs ! (i - 1)))) [0..<length cs]"
    by (rule filter_cong) (auto simp: nth_Cons')
  show ?case
    unfolding upt by (simp add: filter_map tl Cons.IH)
qed

lemma tokens_count_starts: "whitespace_delimited_tokens s = count_starts True s"
proof -
  have "token_start s = (\<lambda>i. \<not> py_isspace (s ! i) \<and> (if i = 0 then True else py_isspace (s ! (i - 1))))"
    by (auto simp: token_start_def fun_eq_iff)
  then show ?thesis
    by (simp only: whitespace_delimited_tokens_def filter_starts_aux)
qed

lemma length_py_split: "length (py_split s) = whitespace_delimited_tokens s"
  by (simp add: py_split_def length_split_from tokens_count_starts)

lemma concat_split_from:
  "concat (split_from cur s) = rev cur @ filter (\<lambda>c. \<not> py_isspace c) s"
  by (induction s arbitrary: cur) simp_all

lemma split_from_tokens:
  "(\<forall>c\<in>set cur. \<not> py_isspace c) \<Longrightarrow>
   \<forall>t\<in>set (split_from cur s). t \<noteq> [] \<and> (\<forall>c\<in>set t. \<not> py_isspace c)"
proof (induction s arbitrary: cur)
  case Nil
  then show ?case by simp
next
  case (Cons c cs)
  show ?case
  proof (cases "py_isspace c")
    case True
    from Cons.IH [of "[]"] Cons.prems True show ?thesis by simp
  next
    case False
    with Cons.prems have "\<forall>x\<in>set (c # cur). \<not> py_isspace x" by simp
    from Cons.IH [OF this] False show ?thesis by simp
  qed
qed

lemma py_split_tokens:
  "concat (py_split s) = filter (\<lambda>c. \<not> py_isspace c) s \<and>
   (\<forall>t\<in>set (py_split s). t \<noteq> [] \<and> (\<forall>c\<in>set t. \<not> py_isspace c))"
  using split_from_tokens [of "[]" s] by (simp add: py_split_def concat_split_from)

text \<open>
  C3: when the rephrase operation succeeds, the rephrased text is the provider's
  completion, \<open>word_count\<close> is the number of whitespace-delimited tokens of that
  completion, \<open>char_count\<close> is its length in characters, and neither is negative.
\<close>

theorem rephrase_counts:
  assumes "rephrase_text env request w = (Inr r, w')"
  shows "(\<exists>key. send_message env (chat_of env key request) (rq_text request) =
              Inr (rs_rephrased_text r)) \<and>
         rs_word_count r = int (whitespace_delimited_tokens (rs_rephrased_text r)) \<and>
         rs_char_count r = int (length (rs_rephrased_text r)) \<and>
         0 \<le> rs_word_count r \<and> 0 \<le> rs_char_count r"
proof -
  from rephrase_text_Inr [OF assms] obtain key response where
    sent: "send_message env (chat_of env key request) (rq_text request) = Inr response" and
    r: "r = \<lparr>rs_rephrased_text = response, rs_original_text = rq_text request,
          rs_tone = rq_tone request, rs_word_count = int (length (py_split response)),
          rs_char_count = int (length response)\<rparr>"
    by blast
  from sent r have "\<exists>key. send_message env (chat_of env key request) (rq_text request) =
              Inr (rs_rephrased_text r)"
    by auto
  moreover from r have "rs_word_count r = int (whitespace_delimited_tokens (rs_rephrased_text r))"
    by (simp add: length_py_split)
  moreover from r have "rs_char_count r = int (length (rs_rephrased_text r))"
    by simp
  ultimately show ?thesis by simp
qed

lemma answering_env_formal:
  "rephrase_text answering_env \<lparr>rq_text = lit ''hello'', rq_tone = lit ''formal''\<rparr> empty_world =
     (Inr \<lparr>rs_rephrased_text = lit ''Hi  all'', rs_original_text = lit ''hello'',
           rs_tone = lit ''formal'', rs_word_count = 2, rs_char_count = 7\<rparr>,
      empty_world\<lparr>llm_calls :=
        [(chat_of answering_env (lit ''key'') \<lparr>rq_text = lit ''hello'', rq_tone = lit ''formal''\<rparr>,
          lit ''hello'')]\<rparr>)"
proof -
  have key: "EMERGENT_LLM_KEY answering_env = Some (lit ''key'')" "lit ''key'' \<noteq> []"
    by (simp_all add: answering_env_def lit_def)
  have sent: "send_message answering_env
      (chat_of answering_env (lit ''key'') \<lparr>rq_text = lit ''hello'', rq_tone = lit ''formal''\<rparr>)
      (rq_text \<lparr>rq_text = lit ''hello'', rq_tone = lit ''formal''\<rparr>) = Inr (lit ''Hi  all'')"
    by (simp add: answering_env_def)
  have n: "length (py_split (lit ''Hi  all'')) = 2"
    by (simp add: py_split_def lit_def py_isspace_def)
  show ?thesis
    unfolding rephrase_text_success [OF key sent] n
    by (simp add: empty_world_def lit_def)
qed

theorem rephrase_counts_witness:
  "rephrase_text answering_env \<lparr>rq_text = lit ''hello'', rq_tone = lit ''formal''\<rparr> empty_world =
     (Inr \<lparr>rs_rephrased_text = lit ''Hi  all'', rs_original_text = lit ''hello'',
           rs_tone = lit ''formal'', rs_word_count = 2, rs_char_count = 7\<rparr>,
      empty_world\<lparr>llm_calls :=
        [(chat_of answering_env (lit ''key'') \<lparr>rq_text = lit ''hello'', rq_tone = lit ''formal''\<rparr>,
          lit ''hello'')]\<rparr>) \<and>
   whitespace_delimited_tokens (lit ''Hi  all'') = 2 \<and> length (lit ''Hi  all'') = 7"
  using rephrase_counts [OF answering_env_formal] answering_env_formal by simp

lemma rephrase_text_outcome:
  "(\<exists>e. rephrase_text env request w =
          (Inl e, w\<lparr>log_lines := log_lines w @ [lit ''Error rephrasing text: '' @
             str_exn (HTTPException 500 (lit ''API key not configured''))]\<rparr>)) \<or>
   (\<exists>key x. EMERGENT_LLM_KEY env = Some key \<and> key \<noteq> [] \<and>
      (rephrase_text env request w =
         (Inl (HTTPError 500 (lit ''Failed to rephrase text: '' @ x)),
          w\<lparr>llm_calls := llm_calls w @ [(chat_of env key request, rq_text request)],
            log_lines := log_lines w @ [lit ''Error rephrasing text: '' @ x]\<rparr>) \<or>
       (\<exists>r. rephrase_text env request w =
         (Inr r, w\<lparr>llm_calls := llm_calls w @ [(chat_of env key request, rq_text request)]\<rparr>))))"
proof (cases "EMERGENT_LLM_KEY env = None \<or> EMERGENT_LLM_KEY env = Some []")
  case True
  show ?thesis
    unfolding rephrase_text_no_key [OF True] by blast
next
  case False
  then obtain key where key: "EMERGENT_LLM_KEY env = Some key" "key \<noteq> []"
    by (cases "EMERGENT_LLM_KEY env") auto
  show ?thesis
  proof (cases "send_message env (chat_of env key request) (rq_text request)")
    case (Inl e)
    from rephrase_text_provider_error [OF key Inl, of w] key show ?thesis by blast
  next
    case (Inr response)
    from rephrase_text_success [OF key Inr, of w] key show ?thesis by blast
  qed
qed

text \<open>
  C8: a rephrase request, successful or not, leaves the history collection as it was;
  it makes at most one call to the provider. The same holds for the endpoint with its
  schema validation in front.
\<close>

theorem rephrase_leaves_history:
  "history (snd (rephrase_text env request w)) = history w \<and>
   (\<exists>calls. llm_calls (snd (rephrase_text env request w)) = llm_calls w @ calls \<and>
      length calls \<le> 1) \<and>
   history (snd (post_rephrase env body w)) = history w"
proof -
  have a: "history (snd (rephrase_text env request w)) = history w" for request
    using rephrase_text_outcome [of env request w] by auto
  have b: "\<exists>calls. llm_calls (snd (rephrase_text env request w)) = llm_calls w @ calls \<and>
      length calls \<le> 1"
    using rephrase_text_outcome [of env request w] by auto
  have c: "history (snd (post_rephrase env body w)) = history w"
    by (simp add: post_rephrase_def a split: option.split)
  from a b c show ?thesis by blast
qed

text \<open>
  C9: a successful rephrase echoes the request: \<open>original_text\<close> is the request's text
  and \<open>tone\<close> is the request's tone string, unchanged. When the tone is none of the four
  known ones, the call that was made to the provider carried the conversational
  template, while the response still shows the tone as it was sent.
\<close>

theorem rephrase_echoes_request:
  assumes "rephrase_text env request w = (Inr r, w')"
  shows "rs_original_text r = rq_text request \<and> rs_tone r = rq_tone request \<and>
         (rq_tone request \<notin> {lit ''formal'', lit ''conversational'', lit ''academic'', lit ''creative''}
            \<longrightarrow> map (\<lambda>c. system_message (fst c)) (llm_calls w') =
                 map (\<lambda>c. system_message (fst c)) (llm_calls w) @ [conversational_prompt])"
proof -
  from rephrase_text_Inr [OF assms] obtain key response where
    r: "r = \<lparr>rs_rephrased_text = response, rs_original_text = rq_text request,
          rs_tone = rq_tone request, rs_word_count = int (length (py_split response)),
          rs_char_count = int (length response)\<rparr>" and
    w': "w' = w\<lparr>llm_calls := llm_calls w @ [(chat_of env key request, rq_text request)]\<rparr>"
    by blast
  have "system_message (chat_of env key request) = conversational_prompt"
    if "rq_tone request \<notin> {lit ''formal'', lit ''conversational'', lit ''academic'', lit ''creative''}"
    using that by (simp add: chat_of_def system_message_for_eq)
  with r w' show ?thesis by simp
qed

lemma answering_env_invalid_tone:
  "rephrase_text answering_env \<lparr>rq_text = lit ''Test text'', rq_tone = lit ''invalid_tone''\<rparr>
     empty_world =
     (Inr \<lparr>rs_rephrased_text = lit ''Hi  all'', rs_original_text = lit ''Test text'',
           rs_tone = lit ''invalid_tone'', rs_word_count = 2, rs_char_count = 7\<rparr>,
      empty_world\<lparr>llm_calls :=
        [(chat_of answering_env (lit ''key'')
            \<lparr>rq_text = lit ''Test text'', rq_tone = lit ''invalid_tone''\<rparr>,
          lit ''Test text'')]\<rparr>)"
proof -
  have key: "EMERGENT_LLM_KEY answering_env = Some (lit ''key'')" "lit ''key'' \<noteq> []"
    by (simp_all add: answering_env_def lit_def)
  have sent: "send_message answering_env
      (chat_of answering_env (lit ''key'')
         \<lparr>rq_text = lit ''Test text'', rq_tone = lit ''invalid_tone''\<rparr>)
      (rq_text \<lparr>rq_text = lit ''Test text'', rq_tone = lit ''invalid_tone''\<rparr>) =
      Inr (lit ''Hi  all'')"
    by (simp add: answering_env_def)
  have n: "length (py_split (lit ''Hi  all'')) = 2"
    by (simp add: py_split_def lit_def py_isspace_def)
  show ?thesis
    unfolding rephrase_text_success [OF key sent] n
    by (simp add: empty_world_def lit_def)
qed

theorem rephrase_echoes_request_witness:
  "rephrase_text answering_env \<lparr>rq_text = lit ''Test text'', rq_tone = lit ''invalid_tone''\<rparr>
     empty_world =
     (Inr \<lparr>rs_rephrased_text = lit ''Hi  all'', rs_original_text = lit ''Test text'',
           rs_tone = lit ''invalid_tone'', rs_word_count = 2, rs_char_count = 7\<rparr>,
      empty_world\<lparr>llm_calls :=
        [(chat_of answering_env (lit ''key'')
            \<lparr>rq_text = lit ''Test text'', rq_tone = lit ''invalid_tone''\<rparr>,
          lit ''Test text'')]\<rparr>) \<and>
   lit ''invalid_tone'' \<notin> {lit ''formal'', lit ''conversational'', lit ''academic'', lit ''creative''} \<and>
   system_message (chat_of answering_env (lit ''key'')
       \<lparr>rq_text = lit ''Test text'', rq_tone = lit ''invalid_tone''\<rparr>) = conversational_prompt"
  using rephrase_echoes_request [OF answering_env_invalid_tone] answering_env_invalid_tone
  by (simp add: lit_eq_iff empty_world_def)

text \<open>
  C6 fails on the rephrase handler: when the provider raises, the 500 returned to the
  caller carries the text of the provider's exception after the fixed prefix.
\<close>

theorem rephrase_error_exposes_cause:
  "fst (rephrase_text failing_env \<lparr>rq_text = lit ''hello'', rq_tone = lit ''formal''\<rparr>
          empty_world) =
     Inl (HTTPError 500 (lit ''Failed to rephrase text: '' @ lit ''quota exceeded''))"
proof -
  have key: "EMERGENT_LLM_KEY failing_env = Some (lit ''key'')" "lit ''key'' \<noteq> []"
    by (simp_all add: failing_env_def lit_def)
  have sent: "send_message failing_env
      (chat_of failing_env (lit ''key'') \<lparr>rq_text = lit ''hello'', rq_tone = lit ''formal''\<rparr>)
      (rq_text \<lparr>rq_text = lit ''hello'', rq_tone = lit ''formal''\<rparr>) = Inl (lit ''quota exceeded'')"
    by (simp add: failing_env_def)
  show ?thesis
    unfolding rephrase_text_provider_error [OF key sent] by simp
qed

text \<open>
  C2 fails on the code: a body whose text is the empty string passes the schema, the
  handler runs, and the provider is called with the empty text; the answer is a 200
  with the completion.
\<close>

theorem empty_text_reaches_provider:
  "post_rephrase answering_env
     (JObject [(''text'', JString []), (''tone'', JString (lit ''conversational''))]) empty_world =
     (Inr \<lparr>rs_rephrased_text = lit ''Hi  all'', rs_original_text = [],
           rs_tone = lit ''conversational'', rs_word_count = 2, rs_char_count = 7\<rparr>,
      empty_world\<lparr>llm_calls :=
        [(chat_of answering_env (lit ''key'') \<lparr>rq_text = [], rq_tone = lit ''conversational''\<rparr>,
          [])]\<rparr>)"
proof -
  have v: "validate_RephraseRequest
      (JObject [(''text'', JString []), (''tone'', JString (lit ''conversational''))]) =
      Some \<lparr>rq_text = [], rq_tone = lit ''conversational''\<rparr>"
    by (simp add: validate_RephraseRequest_def validate_str_def)
  have key: "EMERGENT_LLM_KEY answering_env = Some (lit ''key'')" "lit ''key'' \<noteq> []"
    by (simp_all add: answering_env_def lit_def)
  have sent: "send_message answering_env
      (chat_of answering_env (lit ''key'') \<lparr>rq_text = [], rq_tone = lit ''conversational''\<rparr>)
      (rq_text \<lparr>rq_text = [], rq_tone = lit ''conversational''\<rparr>) = Inr (lit ''Hi  all'')"
    by (simp add: answering_env_def)
  have n: "length (py_split (lit ''Hi  all'')) = 2"
    by (simp add: py_split_def lit_def py_isspace_def)
  show ?thesis
    unfolding post_rephrase_def v option.case rephrase_text_success [OF key sent] n
    by (simp add: empty_world_def lit_def)
qed

subsection \<open>Decimal fields\<close>

lemma length_dec [simp]: "length (dec w n) = w"
  by (induction w arbitrary: n) simp_all

lemma parse_dec_from_append:
  "parse_dec_from acc (xs @ ys) =
     (case parse_dec_from acc xs of None \<Rightarrow> None | Some a \<Rightarrow> parse_dec_from a ys)"
  by (induction xs arbitrary: acc) (simp_all split: option.split)

lemma lex_block:
  "length a = length b \<Longrightarrow> (a @ x < b @ y) \<longleftrightarrow> (a < b \<or> a = b \<and> x < y)"
  for a b x y :: "nat list"
  by (induction a b rule: list_induct2) auto

lemma lex_pair_less:
  "ra < 10 \<Longrightarrow> rb < 10 \<Longrightarrow>
   (10 * qa + ra < 10 * qb + rb) \<longleftrightarrow> (qa < qb \<or> qa = qb \<and> ra < rb)"
  for qa qb ra rb :: nat
  by linarith

lemma div_mod_less_iff:
  "a < b \<longleftrightarrow> a div 10 < b div 10 \<or> a div 10 = b div 10 \<and> a mod 10 < b mod 10"
  for a b :: nat
proof -
  have "a < b \<longleftrightarrow> 10 * (a div 10) + a mod 10 < 10 * (b div 10) + b mod 10"
    by (simp only: mult_div_mod_eq)
  also have "\<dots> \<longleftrightarrow> a div 10 < b div 10 \<or> a div 10 = b div 10 \<and> a mod 10 < b mod 10"
    by (rule lex_pair_less) simp_all
  finally show ?thesis .
qed

lemma parse_dec_from_dec:
  "parse_dec_from acc (dec w n) = Some (acc * 10 ^ w + n mod 10 ^ w)"
proof (induction w arbitrary: acc n)
  case 0
  show ?case by simp
next
  case (Suc w)
  have m: "n mod (10 * 10 ^ w) = 10 * (n div 10 mod 10 ^ w) + n mod 10"
    by (rule mod_mult2_eq)
  have d: "digit_val (48 + n mod 10) = Some (n mod 10)"
    by (simp add: digit_val_def)
  have "parse_dec_from acc (dec (Suc w) n) =
        Some (10 * (acc * 10 ^ w + n div 10 mod 10 ^ w) + n mod 10)"
    by (simp add: parse_dec_from_append Suc.IH d)
  also have "10 * (acc * 10 ^ w + n div 10 mod 10 ^ w) + n mod 10 =
        acc * 10 ^ Suc w + n mod 10 ^ Suc w"
    unfolding power_Suc m by (simp add: algebra_simps)
  finally show ?case .
qed

lemma parse_dec_dec: "n < 10 ^ w \<Longrightarrow> parse_dec (dec w n) = Some n"
  by (simp add: parse_dec_def parse_dec_from_dec)

lemma div10_small: "a < 10 ^ Suc w \<Longrightarrow> a div 10 < 10 ^ w" for a :: nat
proof -
  assume "a < 10 ^ Suc w"
  then have "a < 10 ^ w * 10" by simp
  then show ?thesis by (rule less_mult_imp_div_less)
qed

lemma dec_eq_iff: "a < 10 ^ w \<Longrightarrow> b < 10 ^ w \<Longrightarrow> dec w a = dec w b \<longleftrightarrow> a = b"
proof
  assume small: "a < 10 ^ w" "b < 10 ^ w" and eq: "dec w a = dec w b"
  have "Some a = parse_dec (dec w a)"
    by (rule parse_dec_dec [OF small(1), symmetric])
  also have "\<dots> = parse_dec (dec w b)"
    by (simp only: eq)
  also have "\<dots> = Some b"
    by (rule parse_dec_dec [OF small(2)])
  finally show "a = b"
    by (simp only: option.inject)
next
  assume "a = b"
  then show "dec w a = dec w b" by (rule arg_cong)
qed

lemma dec_less_iff: "a < 10 ^ w \<Longrightarrow> b < 10 ^ w \<Longrightarrow> dec w a < dec w b \<longleftrightarrow> a < b"
proof (induction w arbitrary: a b)
  case 0
  then show ?case by simp
next
  case (Suc w)
  have small: "a div 10 < 10 ^ w" "b div 10 < 10 ^ w"
    by (rule div10_small [OF Suc.prems(1)], rule div10_small [OF Suc.prems(2)])
  have "dec (Suc w) a < dec (Suc w) b \<longleftrightarrow>
        dec w (a div 10) < dec w (b div 10) \<or>
        dec w (a div 10) = dec w (b div 10) \<and> a mod 10 < b mod 10"
    by (simp add: lex_block)
  also have "\<dots> \<longleftrightarrow> a div 10 < b div 10 \<or> a div 10 = b div 10 \<and> a mod 10 < b mod 10"
    by (simp only: Suc.IH [OF small] dec_eq_iff [OF small])
  also have "\<dots> \<longleftrightarrow> a < b"
    by (rule div_mod_less_iff [symmetric])
  finally show ?case .
qed

subsection \<open>isoformat keeps the order of time\<close>

lemma length_lit [simp]: "length (lit s) = length s"
  by (simp add: lit_def)

lemma valid_datetime_bounds:
  assumes "valid_datetime t"
  shows "year t < 10 ^ 4" "month t < 10 ^ 2" "day t < 10 ^ 2" "hour t < 10 ^ 2"
    "minute t < 10 ^ 2" "second t < 10 ^ 2" "microsecond t < 10 ^ 6"
proof -
  have "days_in_month (year t) (month t) \<le> 31"
    by (simp add: days_in_month_def)
  with assms show "year t < 10 ^ 4" "month t < 10 ^ 2" "day t < 10 ^ 2" "hour t < 10 ^ 2"
    "minute t < 10 ^ 2" "second t < 10 ^ 2" "microsecond t < 10 ^ 6"
    by (simp_all add: valid_datetime_def)
qed

lemma field_less:
  fixes r s :: "'a::linorder"
  assumes "a < 10 ^ w" "b < 10 ^ w" "x < y \<longleftrightarrow> r < s" "x = y \<longleftrightarrow> r = s"
  shows "dec w a @ x < dec w b @ y \<longleftrightarrow> (a, r) < (b, s)"
proof -
  have "dec w a @ x < dec w b @ y \<longleftrightarrow> dec w a < dec w b \<or> dec w a = dec w b \<and> x < y"
    by (rule lex_block) simp
  also have "\<dots> \<longleftrightarrow> a < b \<or> a = b \<and> r < s"
    by (simp only: dec_less_iff [OF assms(1,2)] dec_eq_iff [OF assms(1,2)] assms(3))
  also have "\<dots> \<longleftrightarrow> (a, r) < (b, s)"
    by (auto simp: less_prod_def)
  finally show ?thesis .
qed

lemma field_eq:
  assumes "a < 10 ^ w" "b < 10 ^ w" "x = y \<longleftrightarrow> r = s"
  shows "dec w a @ x = dec w b @ y \<longleftrightarrow> (a, r) = (b, s)"
proof -
  have "dec w a @ x = dec w b @ y \<longleftrightarrow> dec w a = dec w b \<and> x = y"
    by (rule append_eq_append_conv) simp
  also have "\<dots> \<longleftrightarrow> a = b \<and> r = s"
    by (simp only: dec_eq_iff [OF assms(1,2)] assms(3))
  finally show ?thesis by simp
qed

lemma sep_field_less:
  fixes r s :: "'a::linorder"
  assumes "a < 10 ^ w" "b < 10 ^ w" "x < y \<longleftrightarrow> r < s" "x = y \<longleftrightarrow> r = s"
  shows "lit c @ dec w a @ x < lit c @ dec w b @ y \<longleftrightarrow> (a, r) < (b, s)"
proof -
  have "lit c @ dec w a @ x < lit c @ dec w b @ y \<longleftrightarrow>
        lit c < lit c \<or> lit c = lit c \<and> dec w a @ x < dec w b @ y"
    by (rule lex_block) simp
  then show ?thesis
    by (simp only: field_less [OF assms] less_irrefl simp_thms)
qed

lemma sep_field_eq:
  assumes "a < 10 ^ w" "b < 10 ^ w" "x = y \<longleftrightarrow> r = s"
  shows "lit c @ dec w a @ x = lit c @ dec w b @ y \<longleftrightarrow> (a, r) = (b, s)"
  by (simp only: same_append_eq field_eq [OF assms])

lemma plus_less_dot: "lit ''+00:00'' < lit ''.'' @ x"
  by (simp add: lit_def)

lemma dot_not_less_plus: "\<not> lit ''.'' @ x < lit ''+00:00''"
  by (simp add: lit_def)

lemma dot_neq_plus: "lit ''.'' @ x \<noteq> lit ''+00:00''" "lit ''+00:00'' \<noteq> lit ''.'' @ x"
  by (simp_all add: lit_def)

lemma fraction_less:
  assumes "a < 10 ^ 6" "b < 10 ^ 6"
  shows "(if a = 0 then [] else lit ''.'' @ dec 6 a) @ lit ''+00:00'' <
         (if b = 0 then [] else lit ''.'' @ dec 6 b) @ lit ''+00:00'' \<longleftrightarrow> a < b"
proof -
  have both: "lit ''.'' @ dec 6 a @ lit ''+00:00'' < lit ''.'' @ dec 6 b @ lit ''+00:00'' \<longleftrightarrow> a < b"
  proof -
    have "lit ''.'' @ dec 6 a @ lit ''+00:00'' < lit ''.'' @ dec 6 b @ lit ''+00:00'' \<longleftrightarrow>
          (a, lit ''+00:00'') < (b, lit ''+00:00'')"
      by (rule sep_field_less [OF assms]) simp_all
    then show ?thesis by (simp add: less_prod_def)
  qed
  show ?thesis
  proof (cases "a = 0")
    case a0: True
    show ?thesis
    proof (cases "b = 0")
      case True
      with a0 show ?thesis by simp
    next
      case False
      with a0 plus_less_dot [of "dec 6 b @ lit ''+00:00''"] show ?thesis by simp
    qed
  next
    case a1: False
    show ?thesis
    proof (cases "b = 0")
      case True
      with a1 dot_not_less_plus [of "dec 6 a @ lit ''+00:00''"] show ?thesis by simp
    next
      case False
      with a1 both show ?thesis by simp
    qed
  qed
qed

lemma fraction_eq:
  assumes "a < 10 ^ 6" "b < 10 ^ 6"
  shows "(if a = 0 then [] else lit ''.'' @ dec 6 a) @ lit ''+00:00'' =
         (if b = 0 then [] else lit ''.'' @ dec 6 b) @ lit ''+00:00'' \<longleftrightarrow> a = b"
proof -
  have both: "lit ''.'' @ dec 6 a @ lit ''+00:00'' = lit ''.'' @ dec 6 b @ lit ''+00:00'' \<longleftrightarrow> a = b"
    by (simp only: same_append_eq append_same_eq dec_eq_iff [OF assms])
  show ?thesis
  proof (cases "a = 0")
    case a0: True
    show ?thesis
    proof (cases "b = 0")
      case True
      with a0 show ?thesis by simp
    next
      case False
      with a0 dot_neq_plus(2) [of "dec 6 b @ lit ''+00:00''"] show ?thesis by simp
    qed
  next
    case a1: False
    show ?thesis
    proof (cases "b = 0")
      case True
      with a1 dot_neq_plus(1) [of "dec 6 a @ lit ''+00:00''"] show ?thesis by simp
    next
      case False
      with a1 both show ?thesis by simp
    qed
  qed
qed

lemma isoformat_eq_iff:
  assumes "valid_datetime t1" "valid_datetime t2"
  shows "isoformat t1 = isoformat t2 \<longleftrightarrow> dt_tuple t1 = dt_tuple t2"
  unfolding isoformat_def dt_tuple_def
  by (intro field_eq sep_field_eq fraction_eq valid_datetime_bounds assms)

lemma isoformat_less_iff:
  assumes "valid_datetime t1" "valid_datetime t2"
  shows "isoformat t1 < isoformat t2 \<longleftrightarrow> dt_tuple t1 < dt_tuple t2"
  unfolding isoformat_def dt_tuple_def
  by (intro field_less sep_field_less field_eq sep_field_eq fraction_less fraction_eq
      valid_datetime_bounds assms)

lemma isoformat_le_iff:
  assumes "valid_datetime t1" "valid_datetime t2"
  shows "isoformat t1 \<le> isoformat t2 \<longleftrightarrow> dt_tuple t1 \<le> dt_tuple t2"
  unfolding le_less isoformat_less_iff [OF assms] isoformat_eq_iff [OF assms] ..

subsection \<open>fromisoformat reads back what isoformat wrote\<close>

lemma substring_left: "j \<le> length a \<Longrightarrow> substring (a @ b) i j = substring a i j"
  by (simp add: substring_def)

lemma substring_right:
  "length a \<le> i \<Longrightarrow> substring (a @ b) i j = substring b (i - length a) (j - length a)"
  by (simp add: substring_def)

lemma substring_whole: "length a = j \<Longrightarrow> substring a 0 j = a"
  by (simp add: substring_def)

lemma substring_head: "length a = j \<Longrightarrow> substring (a @ b) 0 j = a"
  by (simp add: substring_def)

lemma iso_fields:
  fixes x :: pystr and y mo d h mi se :: nat
  defines "s \<equiv> dec 4 y @ lit ''-'' @ dec 2 mo @ lit ''-'' @ dec 2 d @ lit ''T'' @
     dec 2 h @ lit '':'' @ dec 2 mi @ lit '':'' @ dec 2 se @ x"
  shows "substring s 0 4 = dec 4 y" "substring s 4 5 = lit ''-''"
    "substring s 5 7 = dec 2 mo" "substring s 7 8 = lit ''-''"
    "substring s 8 10 = dec 2 d" "substring s 11 13 = dec 2 h"
    "substring s 13 14 = lit '':''" "substring s 14 16 = dec 2 mi"
    "substring s 16 17 = lit '':''" "substring s 17 19 = dec 2 se"
    "19 \<le> i \<Longrightarrow> substring s i j = substring x (i - 19) (j - 19)"
    "length s = 19 + length x"
  unfolding s_def
  by (simp_all add: substring_right substring_head)

lemma fromisoformat_isoformat:
  assumes v: "valid_datetime t"
  shows "fromisoformat (isoformat t) = Some t"
proof -
  note b = valid_datetime_bounds [OF v]
  have p: "parse_dec (dec 4 (year t)) = Some (year t)"
    "parse_dec (dec 2 (month t)) = Some (month t)"
    "parse_dec (dec 2 (day t)) = Some (day t)"
    "parse_dec (dec 2 (hour t)) = Some (hour t)"
    "parse_dec (dec 2 (minute t)) = Some (minute t)"
    "parse_dec (dec 2 (second t)) = Some (second t)"
    "parse_dec (dec 6 (microsecond t)) = Some (microsecond t)"
    by (rule parse_dec_dec, rule b)+
  show ?thesis
  proof (cases "microsecond t = 0")
    case True
    define x where "x = lit ''+00:00''"
    have s: "isoformat t = dec 4 (year t) @ lit ''-'' @ dec 2 (month t) @ lit ''-'' @
        dec 2 (day t) @ lit ''T'' @ dec 2 (hour t) @ lit '':'' @ dec 2 (minute t) @ lit '':'' @
        dec 2 (second t) @ x"
      by (simp add: isoformat_def True x_def)
    note f = iso_fields(1-10) [of "year t" "month t" "day t" "hour t" "minute t" "second t" x,
        folded s]
    have n: "length (isoformat t) = 25"
      unfolding s iso_fields(12) by (simp add: x_def)
    have tz: "substring (isoformat t) 19 25 = lit ''+00:00''"
      unfolding s by (simp add: iso_fields(11) x_def substring_whole)
    have "fromisoformat (isoformat t) =
        (if valid_datetime \<lparr>year = year t, month = month t, day = day t, hour = hour t,
            minute = minute t, second = second t, microsecond = 0\<rparr>
         then Some \<lparr>year = year t, month = month t, day = day t, hour = hour t,
            minute = minute t, second = second t, microsecond = 0\<rparr> else None)"
      unfolding fromisoformat_def Let_def n
      by (simp add: tz f p)
    moreover have "\<lparr>year = year t, month = month t, day = day t, hour = hour t,
            minute = minute t, second = second t, microsecond = 0\<rparr> = t"
      using True by (cases t) simp
    ultimately show ?thesis using v by simp
  next
    case False
    define x where "x = lit ''.'' @ dec 6 (microsecond t) @ lit ''+00:00''"
    have s: "isoformat t = dec 4 (year t) @ lit ''-'' @ dec 2 (month t) @ lit ''-'' @
        dec 2 (day t) @ lit ''T'' @ dec 2 (hour t) @ lit '':'' @ dec 2 (minute t) @ lit '':'' @
        dec 2 (second t) @ x"
      by (simp add: isoformat_def False x_def)
    note f = iso_fields(1-10) [of "year t" "month t" "day t" "hour t" "minute t" "second t" x,
        folded s]
    have n: "length (isoformat t) = 32"
      unfolding s iso_fields(12) by (simp add: x_def)
    have tz: "substring (isoformat t) 26 32 = lit ''+00:00''"
      unfolding s by (simp add: iso_fields(11) x_def substring_right substring_whole)
    have dot: "substring (isoformat t) 19 20 = lit ''.''"
      unfolding s by (simp add: iso_fields(11) x_def substring_head)
    have us: "substring (isoformat t) 20 26 = dec 6 (microsecond t)"
      unfolding s by (simp add: iso_fields(11) x_def substring_right substring_head)
    have "fromisoformat (isoformat t) =
        (if valid_datetime \<lparr>year = year t, month = month t, day = day t, hour = hour t,
            minute = minute t, second = second t, microsecond = microsecond t\<rparr>
         then Some \<lparr>year = year t, month = month t, day = day t, hour = hour t,
            minute = minute t, second = second t, microsecond = microsecond t\<rparr> else None)"
      unfolding fromisoformat_def Let_def n
      by (simp add: tz dot us f p)
    moreover have "\<lparr>year = year t, month = month t, day = day t, hour = hour t,
            minute = minute t, second = second t, microsecond = microsecond t\<rparr> = t"
      by (cases t) simp
    ultimately show ?thesis using v by simp
  qed
qed

lemma fromisoformat_valid: "fromisoformat s = Some t \<Longrightarrow> valid_datetime t"
  by (auto simp: fromisoformat_def Let_def split: if_splits option.splits)

subsection \<open>Stored documents\<close>

lemma stored_timestamp_Some:
  "stored_timestamp d = Some t \<longleftrightarrow>
     d ''timestamp'' = Some (VStr (isoformat t)) \<and> valid_datetime t"
proof
  assume "stored_timestamp d = Some t"
  then obtain s where s: "d ''timestamp'' = Some (VStr s)" "fromisoformat s = Some t"
    "isoformat t = s"
    by (auto simp: stored_timestamp_def split: option.splits field_value.splits if_splits)
  from s(2) have "valid_datetime t" by (rule fromisoformat_valid)
  with s show "d ''timestamp'' = Some (VStr (isoformat t)) \<and> valid_datetime t" by simp
next
  assume "d ''timestamp'' = Some (VStr (isoformat t)) \<and> valid_datetime t"
  then show "stored_timestamp d = Some t"
    by (simp add: stored_timestamp_def fromisoformat_isoformat)
qed

lemma stored_timestamp_project [simp]:
  "stored_timestamp (d(''_id'' := None)) = stored_timestamp d"
  by (simp add: stored_timestamp_def)

lemma wf_doc_timestamp:
  "wf_doc d \<Longrightarrow> \<exists>t. valid_datetime t \<and> d ''timestamp'' = Some (VStr (isoformat t))"
  by (auto simp: wf_doc_def stored_timestamp_Some)

subsection \<open>Sorting\<close>

lemma set_insert_desc [simp]: "set (insert_desc f d xs) = insert d (set xs)"
  by (induction xs) auto

lemma length_insert_desc [simp]: "length (insert_desc f d xs) = Suc (length xs)"
  by (induction xs) simp_all

lemma sorted_insert_desc:
  "sorted_wrt (\<lambda>a b. bson_key (b f) \<le> bson_key (a f)) xs \<Longrightarrow>
   sorted_wrt (\<lambda>a b. bson_key (b f) \<le> bson_key (a f)) (insert_desc f d xs)"
proof (induction xs)
  case Nil
  show ?case by simp
next
  case (Cons x xs)
  show ?case
  proof (cases "bson_key (x f) \<le> bson_key (d f)")
    case True
    with Cons.prems show ?thesis by (auto intro: order_trans)
  next
    case False
    then have "bson_key (d f) \<le> bson_key (x f)" by simp
    with Cons False show ?thesis by auto
  qed
qed

lemma set_sort_desc [simp]: "set (sort_desc f ds) = set ds"
  unfolding sort_desc_def by (induction ds) simp_all

lemma length_sort_desc [simp]: "length (sort_desc f ds) = length ds"
  unfolding sort_desc_def by (induction ds) simp_all

lemma sorted_sort_desc:
  "sorted_wrt (\<lambda>a b. bson_key (b f) \<le> bson_key (a f)) (sort_desc f ds)"
  unfolding sort_desc_def by (induction ds) (simp_all add: sorted_insert_desc)

lemma mset_insert_desc [simp]: "mset (insert_desc f d xs) = add_mset d (mset xs)"
  by (induction xs) simp_all

lemma mset_sort_desc [simp]: "mset (sort_desc f ds) = mset ds"
  unfolding sort_desc_def by (induction ds) simp_all

subsection \<open>Listing\<close>

lemma parse_timestamps_stored:
  "list_all (\<lambda>d. stored_timestamp d \<noteq> None) xs \<Longrightarrow>
   parse_timestamps xs = Inr (map with_datetime xs)"
proof (induction xs)
  case Nil
  show ?case by simp
next
  case (Cons d xs)
  from Cons.prems obtain t where t: "stored_timestamp d = Some t"
    by auto
  then have d: "d ''timestamp'' = Some (VStr (isoformat t))" and v: "valid_datetime t"
    by (simp_all add: stored_timestamp_Some)
  from Cons have rest: "parse_timestamps xs = Inr (map with_datetime xs)"
    by simp
  show ?case
    by (simp add: d rest fromisoformat_isoformat [OF v] with_datetime_def t)
qed

lemma wf_store_set: "wf_store ds \<longleftrightarrow> (\<forall>d\<in>set ds. wf_doc d)"
  by (simp add: wf_store_def list_all_iff)

lemma get_history_wf:
  assumes "wf_store (history w)"
  shows "get_history None w =
     (Inr (map (\<lambda>d. with_datetime (d(''_id'' := None)))
             (take 50 (sort_desc ''timestamp'' (history w)))), w)"
proof -
  let ?xs = "take 50 (sort_desc ''timestamp'' (history w))"
  have "\<forall>d\<in>set ?xs. wf_doc d"
    using assms by (auto simp: wf_store_set dest: in_set_takeD)
  then have "list_all (\<lambda>d. stored_timestamp d \<noteq> None) (map (\<lambda>d. d(''_id'' := None)) ?xs)"
    by (simp add: list_all_iff wf_doc_def)
  from parse_timestamps_stored [OF this] show ?thesis
    by (simp add: get_history_def get_history_try_def find_sorted_def comp_def)
qed

lemma dom_listed:
  assumes "wf_doc d"
  shows "dom (with_datetime (d(''_id'' := None))) = semantic_fields"
    and "with_datetime (d(''_id'' := None)) ''_id'' = None"
proof -
  from assms obtain t where t: "stored_timestamp d = Some t" and dom: "dom d = stored_fields"
    by (auto simp: wf_doc_def)
  have "dom (with_datetime (d(''_id'' := None))) = insert ''timestamp'' (dom d - {''_id''})"
    by (simp add: with_datetime_def t)
  then show "dom (with_datetime (d(''_id'' := None))) = semantic_fields"
    unfolding dom by (auto simp: stored_fields_def semantic_fields_def)
  show "with_datetime (d(''_id'' := None)) ''_id'' = None"
    by (simp add: with_datetime_def t)
qed

lemma timestamp_listed:
  "stored_timestamp d = Some t \<Longrightarrow>
   with_datetime (d(''_id'' := None)) ''timestamp'' = Some (VDatetime t)"
  by (simp add: with_datetime_def)

lemma key_order_is_time_order:
  assumes "stored_timestamp a = Some ta" "stored_timestamp b = Some tb"
  shows "bson_key (b ''timestamp'') \<le> bson_key (a ''timestamp'') \<longleftrightarrow> dt_tuple tb \<le> dt_tuple ta"
proof -
  from assms have a: "a ''timestamp'' = Some (VStr (isoformat ta))" "valid_datetime ta"
    and b: "b ''timestamp'' = Some (VStr (isoformat tb))" "valid_datetime tb"
    by (simp_all add: stored_timestamp_Some)
  have "bson_key (b ''timestamp'') \<le> bson_key (a ''timestamp'') \<longleftrightarrow>
        isoformat tb \<le> isoformat ta"
    by (auto simp: a(1) b(1))
  also have "\<dots> \<longleftrightarrow> dt_tuple tb \<le> dt_tuple ta"
    by (rule isoformat_le_iff [OF b(2) a(2)])
  finally show ?thesis .
qed

lemma map2_same:
  "map2 g xs (map h xs) = map (\<lambda>x. g x (h x)) xs"
  by (induction xs) simp_all

lemma listed_eq:
  "stored_timestamp d = Some t \<Longrightarrow>
   with_datetime (d(''_id'' := None)) = (d(''_id'' := None))(''timestamp'' \<mapsto> VDatetime t)"
  by (simp add: with_datetime_def)

lemma get_history_fault:
  "get_history (Some e) w =
     (Inl (HTTPError 500 (lit ''Failed to fetch history'')),
      w\<lparr>log_lines := log_lines w @ [lit ''Error fetching history: '' @ e]\<rparr>)"
  by (simp add: get_history_def get_history_try_def find_sorted_def)

lemma get_history_keeps_history: "history (snd (get_history fault w)) = history w"
  by (simp add: get_history_def split: sum.split)

subsection \<open>Saving\<close>

lemma save_history_ok:
  "insert_fault env = None \<Longrightarrow>
   save_history env input w =
     (Inr (new_item env input), w\<lparr>history := history w @ [stored_doc env input]\<rparr>)"
  by (simp add: save_history_def save_history_try_def insert_one_def Let_def new_item_def
      stored_doc_def model_dump_def)

lemma save_history_fault:
  "insert_fault env = Some e \<Longrightarrow>
   save_history env input w =
     (Inl (HTTPError 500 (lit ''Failed to save history'')),
      w\<lparr>log_lines := log_lines w @ [lit ''Error saving history: '' @ e]\<rparr>)"
  by (simp add: save_history_def save_history_try_def insert_one_def Let_def)

lemma stored_doc_fields:
  "stored_doc env input ''timestamp'' = Some (VStr (isoformat (now env)))"
  "stored_doc env input ''id'' = Some (VStr (uuid4 env))"
  "dom (stored_doc env input) = stored_fields"
  by (auto simp: stored_doc_def model_dump_def stored_fields_def new_item_def)

lemma stored_timestamp_stored_doc:
  "valid_datetime (now env) \<Longrightarrow> stored_timestamp (stored_doc env input) = Some (now env)"
  by (simp add: stored_timestamp_Some stored_doc_fields)

lemma wf_doc_stored_doc: "valid_datetime (now env) \<Longrightarrow> wf_doc (stored_doc env input)"
  by (simp add: wf_doc_def stored_doc_fields stored_timestamp_stored_doc)

lemma save_history_wf:
  assumes "wf_store (history w)" "valid_datetime (now env)"
  shows "wf_store (history (snd (save_history env input w)))"
proof (cases "insert_fault env")
  case None
  with assms show ?thesis
    by (simp add: save_history_ok wf_store_def wf_doc_stored_doc)
next
  case (Some e)
  with assms show ?thesis
    by (simp add: save_history_fault)
qed

lemma valid_examples:
  "valid_datetime (now first_env)" "valid_datetime (now later_env)"
  "valid_datetime (now earlier_env)"
  by (simp_all add: first_env_def later_env_def earlier_env_def valid_datetime_def
      days_in_month_def)

lemma listed_stored_doc:
  "valid_datetime (now env) \<Longrightarrow>
   with_datetime ((stored_doc env input)(''_id'' := None)) = model_dump (new_item env input)"
  by (rule ext)
    (simp add: with_datetime_def stored_timestamp_stored_doc,
     simp add: stored_doc_def model_dump_def new_item_def)

text \<open>
  C4: on a collection of documents written by the service, listing succeeds. The
  records it returns are stored documents, each without its \<open>_id\<close> and with its
  timestamp read back, so with exactly the fields id, original_text, rephrased_text,
  tone and timestamp. They are the first 50 of the collection (all of it when it is
  smaller), so never more than 50: together with the documents left out they make up
  the collection, and no document left out is later than a returned one. The timestamps
  of the returned records never increase from one record to the next.
\<close>

theorem list_history_newest_first:
  assumes "wf_store (history w)"
  shows "\<exists>items docs rest ts rs. get_history None w = (Inr items, w) \<and>
     mset (docs @ rest) = mset (history w) \<and>
     length docs = min 50 (length (history w)) \<and>
     map (\<lambda>d. d ''timestamp'') docs = map (\<lambda>t. Some (VStr (isoformat t))) ts \<and>
     map (\<lambda>d. d ''timestamp'') rest = map (\<lambda>t. Some (VStr (isoformat t))) rs \<and>
     items = map2 (\<lambda>d t. (d(''_id'' := None))(''timestamp'' \<mapsto> VDatetime t)) docs ts \<and>
     (\<forall>r\<in>set rs. \<forall>t\<in>set ts. dt_tuple r \<le> dt_tuple t) \<and>
     length items = min 50 (length (history w)) \<and> length items \<le> 50 \<and>
     map (\<lambda>item. item ''timestamp'') items = map (\<lambda>t. Some (VDatetime t)) ts \<and>
     sorted_wrt (\<lambda>a b. dt_tuple b \<le> dt_tuple a) ts \<and>
     (\<forall>item\<in>set items. dom item = semantic_fields \<and> item ''_id'' = None)"
proof -
  let ?s = "sort_desc ''timestamp'' (history w)"
  let ?xs = "take 50 ?s"
  let ?ys = "drop 50 ?s"
  let ?T = "\<lambda>d. the (stored_timestamp d)"
  let ?items = "map (\<lambda>d. with_datetime (d(''_id'' := None))) ?xs"
  let ?ts = "map ?T ?xs"
  let ?rs = "map ?T ?ys"
  have wfs: "wf_doc d" if "d \<in> set ?s" for d
    using that assms by (simp add: wf_store_set)
  have st: "stored_timestamp d = Some (?T d)" if "d \<in> set ?s" for d
    using wfs [OF that] by (auto simp: wf_doc_def)
  have inx: "d \<in> set ?s" if "d \<in> set ?xs" for d
    using that by (rule in_set_takeD)
  have iny: "d \<in> set ?s" if "d \<in> set ?ys" for d
    using that by (rule in_set_dropD)
  have raw: "d ''timestamp'' = Some (VStr (isoformat (?T d)))" if "d \<in> set ?s" for d
    using st [OF that] by (simp add: stored_timestamp_Some)
  have sorted_s: "sorted_wrt (\<lambda>a b. bson_key (b ''timestamp'') \<le> bson_key (a ''timestamp'')) ?s"
    by (rule sorted_sort_desc)
  have time_le: "dt_tuple (?T b) \<le> dt_tuple (?T a)"
    if "a \<in> set ?s" "b \<in> set ?s"
      "bson_key (b ''timestamp'') \<le> bson_key (a ''timestamp'')" for a b
    using key_order_is_time_order [OF st [OF that(1)] st [OF that(2)]] that(3) by simp
  have c1: "get_history None w = (Inr ?items, w)"
    by (rule get_history_wf [OF assms])
  have c2: "mset (?xs @ ?ys) = mset (history w)"
    by simp
  have c3: "length ?xs = min 50 (length (history w))"
    by (simp add: min.commute)
  have c4: "map (\<lambda>d. d ''timestamp'') ?xs = map (\<lambda>t. Some (VStr (isoformat t))) ?ts"
    using raw inx by simp
  have c5: "map (\<lambda>d. d ''timestamp'') ?ys = map (\<lambda>t. Some (VStr (isoformat t))) ?rs"
    using raw iny by simp
  have c6: "?items =
      map2 (\<lambda>d t. (d(''_id'' := None))(''timestamp'' \<mapsto> VDatetime t)) ?xs ?ts"
    unfolding map2_same using st inx by (simp add: listed_eq)
  have c7: "\<forall>r\<in>set ?rs. \<forall>t\<in>set ?ts. dt_tuple r \<le> dt_tuple t"
  proof (intro ballI)
    fix r t
    assume "r \<in> set ?rs" "t \<in> set ?ts"
    then obtain b a where b: "b \<in> set ?ys" "r = ?T b" and a: "a \<in> set ?xs" "t = ?T a"
      by auto
    from sorted_s have "sorted_wrt (\<lambda>a b. bson_key (b ''timestamp'') \<le> bson_key (a ''timestamp''))
        (?xs @ ?ys)"
      by simp
    with a(1) b(1) have "bson_key (b ''timestamp'') \<le> bson_key (a ''timestamp'')"
      unfolding sorted_wrt_append by blast
    from time_le [OF inx [OF a(1)] iny [OF b(1)] this] a(2) b(2)
    show "dt_tuple r \<le> dt_tuple t" by simp
  qed
  have c8: "length ?items = min 50 (length (history w))"
    by (simp add: min.commute)
  have c9: "length ?items \<le> 50"
    by simp
  have c10: "map (\<lambda>item. item ''timestamp'') ?items = map (\<lambda>t. Some (VDatetime t)) ?ts"
    using st inx by (simp add: timestamp_listed)
  have c11: "sorted_wrt (\<lambda>a b. dt_tuple b \<le> dt_tuple a) ?ts"
  proof -
    have "sorted_wrt (\<lambda>a b. bson_key (b ''timestamp'') \<le> bson_key (a ''timestamp'')) ?xs"
      by (rule sorted_wrt_take) (rule sorted_s)
    then have "sorted_wrt (\<lambda>a b. dt_tuple (?T b) \<le> dt_tuple (?T a)) ?xs"
    proof (rule sorted_wrt_mono_rel [rotated])
      fix a b
      assume "a \<in> set ?xs" "b \<in> set ?xs"
        and "bson_key (b ''timestamp'') \<le> bson_key (a ''timestamp'')"
      then show "dt_tuple (?T b) \<le> dt_tuple (?T a)"
        by (intro time_le inx)
    qed
    then show ?thesis by (simp add: sorted_wrt_map)
  qed
  have c12: "\<forall>item\<in>set ?items. dom item = semantic_fields \<and> item ''_id'' = None"
    using wfs inx by (auto simp: dom_listed)
  show ?thesis
    by (intro exI [of _ ?items] exI [of _ ?xs] exI [of _ ?ys] exI [of _ ?ts] exI [of _ ?rs]
        conjI c1 c2 c3 c4 c5 c6 c7 c8 c9 c10 c11 c12)
qed

lemma wf_one_record: "wf_store (history one_record)"
  by (simp add: one_record_def wf_store_def wf_doc_stored_doc valid_examples)

lemma two_records_listed:
  "get_history None
     (one_record\<lparr>history := history one_record @ [stored_doc later_env example_input]\<rparr>) =
     (Inr [model_dump (new_item later_env example_input),
           model_dump (new_item first_env example_input)],
      one_record\<lparr>history := history one_record @ [stored_doc later_env example_input]\<rparr>)"
proof -
  let ?d1 = "stored_doc first_env example_input"
  let ?d2 = "stored_doc later_env example_input"
  let ?w' = "one_record\<lparr>history := history one_record @ [?d2]\<rparr>"
  have h: "history ?w' = [?d1, ?d2]"
    by (simp add: one_record_def)
  have wf: "wf_store (history ?w')"
    unfolding h by (simp add: wf_store_def wf_doc_stored_doc valid_examples)
  have "\<not> dt_tuple (now later_env) \<le> dt_tuple (now first_env)"
    by (simp add: dt_tuple_def later_env_def first_env_def)
  with key_order_is_time_order [OF stored_timestamp_stored_doc [OF valid_examples(1)]
      stored_timestamp_stored_doc [OF valid_examples(2)], of example_input example_input]
  have gt: "\<not> bson_key (?d2 ''timestamp'') \<le> bson_key (?d1 ''timestamp'')"
    by simp
  have sorted: "sort_desc ''timestamp'' [?d1, ?d2] = [?d2, ?d1]"
    using gt by (simp add: sort_desc_def)
  show ?thesis
    unfolding get_history_wf [OF wf] h sorted
    by (simp add: listed_stored_doc valid_examples)
qed

theorem list_history_newest_first_witness:
  "wf_store (history (one_record\<lparr>history := history one_record @
       [stored_doc later_env example_input]\<rparr>)) \<and>
   get_history None
     (one_record\<lparr>history := history one_record @ [stored_doc later_env example_input]\<rparr>) =
     (Inr [model_dump (new_item later_env example_input),
           model_dump (new_item first_env example_input)],
      one_record\<lparr>history := history one_record @ [stored_doc later_env example_input]\<rparr>) \<and>
   (\<exists>ts. map (\<lambda>item. item ''timestamp'')
           [model_dump (new_item later_env example_input),
            model_dump (new_item first_env example_input)] =
         map (\<lambda>t. Some (VDatetime t)) ts \<and>
      sorted_wrt (\<lambda>a b. dt_tuple b \<le> dt_tuple a) ts)"
proof -
  let ?w = "one_record\<lparr>history := history one_record @ [stored_doc later_env example_input]\<rparr>"
  have h: "wf_store (history ?w)"
    using wf_one_record by (simp add: wf_store_def wf_doc_stored_doc valid_examples)
  from list_history_newest_first [OF h] obtain items ts where
    "get_history None ?w = (Inr items, ?w)"
    "map (\<lambda>item. item ''timestamp'') items = map (\<lambda>t. Some (VDatetime t)) ts"
    "sorted_wrt (\<lambda>a b. dt_tuple b \<le> dt_tuple a) ts"
    by blast
  with two_records_listed have
    "\<exists>ts. map (\<lambda>item. item ''timestamp'')
           [model_dump (new_item later_env example_input),
            model_dump (new_item first_env example_input)] =
         map (\<lambda>t. Some (VDatetime t)) ts \<and>
      sorted_wrt (\<lambda>a b. dt_tuple b \<le> dt_tuple a) ts"
    by (intro exI [of _ ts]) simp
  with h two_records_listed show ?thesis by (intro conjI)
qed

lemma hd_sort_desc_newest:
  assumes new: "d \<in> set ds"
    and older: "\<And>x. x \<in> set ds \<Longrightarrow> x \<noteq> d \<Longrightarrow> bson_key (x f) < bson_key (d f)"
  shows "sort_desc f ds \<noteq> [] \<and> hd (sort_desc f ds) = d"
proof -
  from new have "set (sort_desc f ds) \<noteq> {}" by auto
  then obtain x xs where s: "sort_desc f ds = x # xs"
    by (cases "sort_desc f ds") auto
  have x: "x \<in> set ds"
    using set_sort_desc [of f ds] unfolding s by auto
  have "x = d"
  proof (rule ccontr)
    assume neq: "x \<noteq> d"
    with new set_sort_desc [of f ds] have "d \<in> set xs"
      unfolding s by auto
    moreover from sorted_sort_desc [of f ds]
    have "\<forall>y\<in>set xs. bson_key (y f) \<le> bson_key (x f)"
      unfolding s by simp
    ultimately have "bson_key (d f) \<le> bson_key (x f)" by blast
    with older [OF x neq] show False by simp
  qed
  with s show ?thesis by simp
qed

text \<open>
  C7, as the code has it: on a collection of documents written by the service, when the
  insert succeeds and the clock reading taken for the new record is strictly later than
  every timestamp already stored, the listing that follows has the created record as
  its first entry.
\<close>

theorem created_record_listed_first:
  assumes wf: "wf_store (history w)" and v: "valid_datetime (now env)"
    and ok: "insert_fault env = None"
    and later: "\<forall>d\<in>set (history w). \<forall>t. stored_timestamp d = Some t \<longrightarrow>
                 dt_tuple t < dt_tuple (now env)"
  shows "\<exists>h w' items. save_history env input w = (Inr h, w') \<and>
           get_history None w' = (Inr items, w') \<and> items \<noteq> [] \<and> hd items = model_dump h"
proof -
  let ?d = "stored_doc env input"
  let ?w' = "w\<lparr>history := history w @ [?d]\<rparr>"
  let ?s = "sort_desc ''timestamp'' (history ?w')"
  have saved: "save_history env input w = (Inr (new_item env input), ?w')"
    by (rule save_history_ok [OF ok])
  have wf': "wf_store (history ?w')"
    using wf by (simp add: wf_store_def wf_doc_stored_doc [OF v])
  have older: "bson_key (x ''timestamp'') < bson_key (?d ''timestamp'')"
    if "x \<in> set (history ?w')" "x \<noteq> ?d" for x
  proof -
    from that have x: "x \<in> set (history w)" by auto
    with wf obtain t where t: "stored_timestamp x = Some t"
      by (auto simp: wf_store_set wf_doc_def)
    with later x have "dt_tuple t < dt_tuple (now env)" by blast
    then have "\<not> dt_tuple (now env) \<le> dt_tuple t" by simp
    with key_order_is_time_order [OF t stored_timestamp_stored_doc [OF v, of input]]
    show ?thesis by simp
  qed
  have "?d \<in> set (history ?w')" by simp
  then have "?s \<noteq> [] \<and> hd ?s = ?d"
    by (rule hd_sort_desc_newest) (rule older)
  then obtain rest where s: "?s = ?d # rest"
    by (cases ?s) auto
  have "get_history None ?w' =
      (Inr (map (\<lambda>d. with_datetime (d(''_id'' := None))) (take 50 ?s)), ?w')"
    by (rule get_history_wf [OF wf'])
  also have "map (\<lambda>d. with_datetime (d(''_id'' := None))) (take 50 ?s) =
      model_dump (new_item env input) #
      map (\<lambda>d. with_datetime (d(''_id'' := None))) (take 49 rest)"
    unfolding s by (simp add: listed_stored_doc [OF v])
  finally show ?thesis using saved by simp
qed

lemma later_example:
  "\<forall>d\<in>set (history one_record). \<forall>t. stored_timestamp d = Some t \<longrightarrow>
      dt_tuple t < dt_tuple (now later_env)"
  by (simp add: one_record_def stored_timestamp_stored_doc valid_examples)
    (simp add: dt_tuple_def first_env_def later_env_def)

theorem created_record_listed_first_witness:
  "wf_store (history one_record) \<and> valid_datetime (now later_env) \<and>
   insert_fault later_env = None \<and>
   (\<exists>h w' items. save_history later_env example_input one_record = (Inr h, w') \<and>
      get_history None w' = (Inr items, w') \<and> items \<noteq> [] \<and> hd items = model_dump h)"
proof -
  have ok: "insert_fault later_env = None"
    by (simp add: later_env_def)
  from created_record_listed_first [OF wf_one_record valid_examples(2) ok later_example]
    wf_one_record valid_examples(2) ok
  show ?thesis by blast
qed

lemma one_record_saved:
  "save_history first_env example_input empty_world =
     (Inr (new_item first_env example_input), one_record)"
  by (simp add: save_history_ok first_env_def one_record_def empty_world_def)

text \<open>
  Without the condition on the clock the property fails: a record stamped 00:00:01 is in
  the collection, the clock reads 00:00:00 when the next record is created, and the
  listing that follows puts the older record first.
\<close>

theorem created_record_not_first_counterexample:
  "save_history earlier_env example_input one_record =
     (Inr (new_item earlier_env example_input),
      one_record\<lparr>history := history one_record @ [stored_doc earlier_env example_input]\<rparr>) \<and>
   get_history None
     (one_record\<lparr>history := history one_record @ [stored_doc earlier_env example_input]\<rparr>) =
     (Inr [model_dump (new_item first_env example_input),
           model_dump (new_item earlier_env example_input)],
      one_record\<lparr>history := history one_record @ [stored_doc earlier_env example_input]\<rparr>) \<and>
   hi_id (new_item first_env example_input) = lit ''id-1'' \<and>
   hi_id (new_item earlier_env example_input) = lit ''id-3'' \<and>
   model_dump (new_item first_env example_input) \<noteq>
     model_dump (new_item earlier_env example_input)"
proof -
  let ?d1 = "stored_doc first_env example_input"
  let ?d3 = "stored_doc earlier_env example_input"
  let ?w' = "one_record\<lparr>history := history one_record @ [?d3]\<rparr>"
  have ok: "insert_fault earlier_env = None"
    by (simp add: earlier_env_def)
  have saved: "save_history earlier_env example_input one_record =
      (Inr (new_item earlier_env example_input), ?w')"
    by (rule save_history_ok [OF ok])
  have h: "history ?w' = [?d1, ?d3]"
    by (simp add: one_record_def)
  have wf: "wf_store (history ?w')"
    unfolding h by (simp add: wf_store_def wf_doc_stored_doc valid_examples)
  have "dt_tuple (now earlier_env) \<le> dt_tuple (now first_env)"
    by (simp add: dt_tuple_def earlier_env_def first_env_def)
  with key_order_is_time_order [OF stored_timestamp_stored_doc [OF valid_examples(1)]
      stored_timestamp_stored_doc [OF valid_examples(3)], of example_input example_input]
  have le: "bson_key (?d3 ''timestamp'') \<le> bson_key (?d1 ''timestamp'')"
    by simp
  have sorted: "sort_desc ''timestamp'' [?d1, ?d3] = [?d1, ?d3]"
    by (simp add: sort_desc_def le)
  have listed: "get_history None ?w' =
      (Inr [model_dump (new_item first_env example_input),
            model_dump (new_item earlier_env example_input)], ?w')"
    unfolding get_history_wf [OF wf] h sorted
    by (simp add: listed_stored_doc valid_examples)
  have id1: "hi_id (new_item first_env example_input) = lit ''id-1''"
    by (simp add: new_item_def first_env_def)
  have id3: "hi_id (new_item earlier_env example_input) = lit ''id-3''"
    by (simp add: new_item_def earlier_env_def)
  have "model_dump (new_item first_env example_input) ''id'' \<noteq>
        model_dump (new_item earlier_env example_input) ''id''"
    by (simp add: model_dump_def id1 id3 lit_def)
  then have neq: "model_dump (new_item first_env example_input) \<noteq>
        model_dump (new_item earlier_env example_input)"
    by (rule contrapos_nn) simp
  from saved listed id1 id3 neq show ?thesis by (intro conjI)
qed

subsection \<open>Deleting\<close>

lemma delete_first_absent: "\<not> list_ex p ds \<Longrightarrow> delete_first p ds = (ds, 0)"
  by (induction ds) simp_all

lemma delete_first_present:
  "list_ex p ds \<Longrightarrow>
   \<exists>xs d ys. ds = xs @ d # ys \<and> p d \<and> \<not> list_ex p xs \<and> delete_first p ds = (xs @ ys, 1)"
proof (induction ds)
  case Nil
  then show ?case by simp
next
  case (Cons a ds)
  show ?case
  proof (cases "p a")
    case True
    then have "a # ds = [] @ a # ds \<and> p a \<and> \<not> list_ex p [] \<and>
        delete_first p (a # ds) = ([] @ ds, 1)"
      by simp
    then show ?thesis by blast
  next
    case False
    with Cons.prems have "list_ex p ds" by simp
    from Cons.IH [OF this] obtain xs d ys where
      "ds = xs @ d # ys" "p d" "\<not> list_ex p xs" "delete_first p ds = (xs @ ys, 1)"
      by blast
    with False have "a # ds = (a # xs) @ d # ys \<and> p d \<and> \<not> list_ex p (a # xs) \<and>
        delete_first p (a # ds) = ((a # xs) @ ys, 1)"
      by simp
    then show ?thesis by blast
  qed
qed

lemma delete_absent:
  "\<not> has_id history_id (history w) \<Longrightarrow>
   delete_history_item None history_id w =
     (Inl (HTTPError 404 (lit ''History item not found'')), w)"
  by (simp add: delete_history_item_def delete_try_def delete_one_def has_id_def
      delete_first_absent)

lemma delete_present:
  assumes "has_id history_id (history w)"
  shows "\<exists>xs d ys. history w = xs @ d # ys \<and> d ''id'' = Some (VStr history_id) \<and>
     \<not> has_id history_id xs \<and>
     delete_history_item None history_id w =
       (Inr [(''message'', lit ''History item deleted'')], w\<lparr>history := xs @ ys\<rparr>)"
proof -
  from assms have "list_ex (\<lambda>d. d ''id'' = Some (VStr history_id)) (history w)"
    by (simp add: has_id_def)
  from delete_first_present [OF this] obtain xs d ys where
    s: "history w = xs @ d # ys" "d ''id'' = Some (VStr history_id)"
      "\<not> list_ex (\<lambda>d. d ''id'' = Some (VStr history_id)) xs"
      "delete_first (\<lambda>d. d ''id'' = Some (VStr history_id)) (history w) = (xs @ ys, 1)"
    by blast
  have "delete_history_item None history_id w =
       (Inr [(''message'', lit ''History item deleted'')], w\<lparr>history := xs @ ys\<rparr>)"
    by (simp add: delete_history_item_def delete_try_def delete_one_def s(4))
  with s show ?thesis by (auto simp: has_id_def)
qed

lemma delete_fault:
  "delete_history_item (Some e) history_id w =
     (Inl (HTTPError 500 (lit ''Failed to delete history'')),
      w\<lparr>log_lines := log_lines w @ [lit ''Error deleting history: '' @ e]\<rparr>)"
  by (simp add: delete_history_item_def delete_try_def delete_one_def)

lemma has_id_set: "has_id history_id ds \<longleftrightarrow> Some (VStr history_id) \<in> (\<lambda>d. d ''id'') ` set ds"
proof
  assume "has_id history_id ds"
  then obtain d where d: "d \<in> set ds" "d ''id'' = Some (VStr history_id)"
    unfolding has_id_def list_ex_iff by blast
  from d(1) show "Some (VStr history_id) \<in> (\<lambda>d. d ''id'') ` set ds"
    by (rule image_eqI [where x = d, rotated]) (simp add: d(2))
next
  assume "Some (VStr history_id) \<in> (\<lambda>d. d ''id'') ` set ds"
  then obtain d where d: "d \<in> set ds" "Some (VStr history_id) = d ''id''"
    by (rule imageE)
  then have "\<exists>x\<in>set ds. x ''id'' = Some (VStr history_id)"
    by (intro bexI [where x = d]) simp_all
  then show "has_id history_id ds"
    by (simp add: has_id_def list_ex_iff)
qed

lemma unique_ids_removed:
  assumes "unique_ids (xs @ d # ys)" "d ''id'' = Some (VStr history_id)"
  shows "\<not> has_id history_id (xs @ ys)" "unique_ids (xs @ ys)"
proof -
  from assms show "\<not> has_id history_id (xs @ ys)"
    unfolding has_id_set unique_ids_def by auto
  from assms(1) show "unique_ids (xs @ ys)"
    unfolding unique_ids_def by auto
qed

lemma save_history_unique_ids:
  assumes "unique_ids (history w)" "\<not> has_id (uuid4 env) (history w)"
  shows "unique_ids (history (snd (save_history env input w)))"
proof (cases "insert_fault env")
  case None
  with assms show ?thesis
    unfolding has_id_set unique_ids_def by (simp add: save_history_ok stored_doc_fields)
next
  case (Some e)
  with assms show ?thesis by (simp add: save_history_fault)
qed

lemma delete_wf:
  assumes "wf_store (history w)"
  shows "wf_store (history (snd (delete_history_item fault history_id w)))"
proof (cases fault)
  case (Some e)
  with assms show ?thesis by (simp add: delete_fault)
next
  case None
  show ?thesis
  proof (cases "has_id history_id (history w)")
    case True
    from delete_present [OF True] obtain xs d ys where
      s: "history w = xs @ d # ys"
        "delete_history_item None history_id w =
           (Inr [(''message'', lit ''History item deleted'')], w\<lparr>history := xs @ ys\<rparr>)"
      by blast
    from assms show ?thesis
      unfolding None s by (simp add: wf_store_def)
  next
    case False
    with assms show ?thesis unfolding None by (simp add: delete_absent)
  qed
qed

lemma delete_unique_ids:
  assumes "unique_ids (history w)"
  shows "unique_ids (history (snd (delete_history_item fault history_id w)))"
proof (cases fault)
  case (Some e)
  with assms show ?thesis by (simp add: delete_fault)
next
  case None
  show ?thesis
  proof (cases "has_id history_id (history w)")
    case True
    from delete_present [OF True] obtain xs d ys where
      s: "history w = xs @ d # ys" "d ''id'' = Some (VStr history_id)"
        "delete_history_item None history_id w =
           (Inr [(''message'', lit ''History item deleted'')], w\<lparr>history := xs @ ys\<rparr>)"
      by blast
    from assms have "unique_ids (xs @ d # ys)"
      by (simp only: s(1))
    then have "unique_ids (xs @ ys)"
      using s(2) by (rule unique_ids_removed(2) [of xs d ys history_id])
    then show ?thesis
      unfolding None s(3) by simp
  next
    case False
    with assms show ?thesis unfolding None by (simp add: delete_absent)
  qed
qed

subsection \<open>Reachable states\<close>

lemma reachable_invariant:
  "reachable w \<Longrightarrow> wf_store (history w) \<and> unique_ids (history w)"
proof (induction rule: reachable.induct)
  case (start w)
  then show ?case by (simp add: wf_store_def unique_ids_def)
next
  case (saved w env input)
  then show ?case by (simp add: save_history_wf save_history_unique_ids)
next
  case (listed w fault)
  then show ?case by (simp add: get_history_keeps_history)
next
  case (deleted w fault history_id)
  then show ?case by (simp add: delete_wf delete_unique_ids)
next
  case (rephrased w renv request)
  with rephrase_text_outcome [of renv request w] show ?case by auto
qed

subsection \<open>Deleting twice\<close>

text \<open>
  C5: when the collection holds a record with the given id, delete removes the first
  such record, leaves the others in place and answers with the success message (200);
  when it holds none, delete answers 404 and changes nothing, and that answer differs from
  the 500 of a storage failure. Ids being unique, as the data model has them, a second
  delete of the same id answers 404.
\<close>

theorem delete_history_item_results:
  "(has_id history_id (history w) \<longrightarrow>
      (\<exists>xs d ys. history w = xs @ d # ys \<and> d ''id'' = Some (VStr history_id) \<and>
         \<not> has_id history_id xs \<and>
         delete_history_item None history_id w =
           (Inr [(''message'', lit ''History item deleted'')], w\<lparr>history := xs @ ys\<rparr>) \<and>
         (unique_ids (history w) \<longrightarrow>
            delete_history_item None history_id (w\<lparr>history := xs @ ys\<rparr>) =
              (Inl (HTTPError 404 (lit ''History item not found'')), w\<lparr>history := xs @ ys\<rparr>)))) \<and>
   (\<not> has_id history_id (history w) \<longrightarrow>
      delete_history_item None history_id w =
        (Inl (HTTPError 404 (lit ''History item not found'')), w)) \<and>
   fst (delete_history_item (Some e) history_id w) =
     Inl (HTTPError 500 (lit ''Failed to delete history'')) \<and>
   HTTPError 404 (lit ''History item not found'') \<noteq> HTTPError 500 (lit ''Failed to delete history'')"
proof (intro conjI impI)
  assume present: "has_id history_id (history w)"
  from delete_present [OF this] obtain xs d ys where
    s: "history w = xs @ d # ys" "d ''id'' = Some (VStr history_id)"
      "\<not> has_id history_id xs"
      "delete_history_item None history_id w =
         (Inr [(''message'', lit ''History item deleted'')], w\<lparr>history := xs @ ys\<rparr>)"
    by blast
  have again: "unique_ids (history w) \<longrightarrow>
        delete_history_item None history_id (w\<lparr>history := xs @ ys\<rparr>) =
        (Inl (HTTPError 404 (lit ''History item not found'')), w\<lparr>history := xs @ ys\<rparr>)"
  proof
    assume "unique_ids (history w)"
    then have "unique_ids (xs @ d # ys)"
      by (simp only: s(1))
    then have "\<not> has_id history_id (xs @ ys)"
      using s(2) by (rule unique_ids_removed(1) [of xs d ys history_id])
    then show "delete_history_item None history_id (w\<lparr>history := xs @ ys\<rparr>) =
        (Inl (HTTPError 404 (lit ''History item not found'')), w\<lparr>history := xs @ ys\<rparr>)"
      by (simp add: delete_absent)
  qed
  show "\<exists>xs d ys. history w = xs @ d # ys \<and> d ''id'' = Some (VStr history_id) \<and>
         \<not> has_id history_id xs \<and>
         delete_history_item None history_id w =
           (Inr [(''message'', lit ''History item deleted'')], w\<lparr>history := xs @ ys\<rparr>) \<and>
         (unique_ids (history w) \<longrightarrow>
            delete_history_item None history_id (w\<lparr>history := xs @ ys\<rparr>) =
              (Inl (HTTPError 404 (lit ''History item not found'')), w\<lparr>history := xs @ ys\<rparr>))"
    by (intro exI [of _ xs] exI [of _ d] exI [of _ ys] conjI s again)
next
  assume "\<not> has_id history_id (history w)"
  then show "delete_history_item None history_id w =
        (Inl (HTTPError 404 (lit ''History item not found'')), w)"
    by (rule delete_absent)
next
  show "fst (delete_history_item (Some e) history_id w) =
     Inl (HTTPError 500 (lit ''Failed to delete history''))"
    by (simp add: delete_fault)
next
  show "HTTPError 404 (lit ''History item not found'') \<noteq>
        HTTPError 500 (lit ''Failed to delete history'')"
    by simp
qed

lemma has_id_one_record: "has_id (lit ''id-1'') (history one_record)"
  by (simp add: has_id_def one_record_def stored_doc_fields first_env_def)

lemma unique_ids_one_record: "unique_ids (history one_record)"
  by (simp add: unique_ids_def one_record_def)

lemma no_such_id: "\<not> has_id (lit ''non-existent-id-12345'') (history one_record)"
  by (simp add: has_id_def one_record_def stored_doc_fields first_env_def lit_eq_iff)

theorem delete_history_item_results_witness:
  "has_id (lit ''id-1'') (history one_record) \<and> unique_ids (history one_record) \<and>
   delete_history_item None (lit ''id-1'') one_record =
     (Inr [(''message'', lit ''History item deleted'')], one_record\<lparr>history := []\<rparr>) \<and>
   delete_history_item None (lit ''id-1'') (one_record\<lparr>history := []\<rparr>) =
     (Inl (HTTPError 404 (lit ''History item not found'')), one_record\<lparr>history := []\<rparr>) \<and>
   \<not> has_id (lit ''non-existent-id-12345'') (history one_record) \<and>
   delete_history_item None (lit ''non-existent-id-12345'') one_record =
     (Inl (HTTPError 404 (lit ''History item not found'')), one_record)"
proof -
  from delete_history_item_results [of "lit ''id-1''" one_record "[]"]
    has_id_one_record unique_ids_one_record
  obtain xs d ys where
    s: "history one_record = xs @ d # ys"
      "delete_history_item None (lit ''id-1'') one_record =
         (Inr [(''message'', lit ''History item deleted'')], one_record\<lparr>history := xs @ ys\<rparr>)"
      "delete_history_item None (lit ''id-1'') (one_record\<lparr>history := xs @ ys\<rparr>) =
         (Inl (HTTPError 404 (lit ''History item not found'')), one_record\<lparr>history := xs @ ys\<rparr>)"
    by blast
  from s(1) have e: "xs @ ys = []"
    by (simp add: one_record_def Cons_eq_append_conv)
  from delete_history_item_results [of "lit ''non-existent-id-12345''" one_record "[]"] no_such_id
  have "delete_history_item None (lit ''non-existent-id-12345'') one_record =
     (Inl (HTTPError 404 (lit ''History item not found'')), one_record)"
    by blast
  with s(2,3) has_id_one_record unique_ids_one_record no_such_id show ?thesis
    unfolding e by (intro conjI)
qed







end
